theory Spec2Isabelle
  imports Main "HOL-Library.Word" "HOL-Library.Sublist"
begin

section \<open>Errors, panics and results\<close>

text \<open>
  The error classes of the packages (\<^verbatim>\<open>errs.Class\<close> values). A Go \<^verbatim>\<open>error\<close> is either an
  error of a library or store, known by its text only (\<open>Foreign\<close>), an error made by
  \<^verbatim>\<open>Class.New(format, ...)\<close> (the format string is kept, its arguments are not), an error
  wrapped by \<^verbatim>\<open>Class.Wrap(err)\<close>, or the package variable \<^verbatim>\<open>ErrRevokedCert\<close>.
  A nil error is \<open>None\<close> of \<open>error option\<close>.
\<close>

datatype err_class =
    identity_Error | bwagreement_Error | ErrNodeID
  | ErrBadID | ErrSerial | ErrExpired | ErrSigLen | ErrVerify
  | ErrPayer | ErrRenter
  | ErrVerifyPeerCert | ErrVerifyCAWhitelist | ErrExtension | ErrUnsupportedKey

datatype error =
    Foreign string
  | New err_class string
  | Wrap err_class error
  | ErrRevokedCert

text \<open>A call either panics or returns.\<close>

datatype panic = NilPointerDereference | IndexOutOfRange | TypeAssertionFailed | MakeChanSizeOutOfRange

datatype 'a result = Panics panic | Returns 'a

type_synonym bytes = "8 word list"

section \<open>Keys, certificates and node IDs (package identity)\<close>

text \<open>
  A \<^verbatim>\<open>crypto.PublicKey\<close> is an interface value: an \<^verbatim>\<open>*ecdsa.PublicKey\<close> or a key of another
  dynamic type (named as \<^verbatim>\<open>%T\<close> prints it). \<open>Curve_BitLen\<close> is
  \<^verbatim>\<open>k.Curve.Params().P.BitLen()\<close>.
\<close>

record ecdsa_PublicKey =
  Curve_BitLen :: nat
  key_X :: int
  key_Y :: int

datatype PublicKey = ECDSA ecdsa_PublicKey | NotECDSA string

text \<open>A \<^verbatim>\<open>storj.NodeID\<close> is a \<^verbatim>\<open>[32]byte\<close>, the type of \<^verbatim>\<open>sha256.Sum256\<close>'s result.\<close>

type_synonym NodeID = "256 word"

record x509_Certificate =
  Raw :: bytes
  cert_PublicKey :: PublicKey

text \<open>A revocation record (\<^verbatim>\<open>peertls.Revocation\<close>).\<close>

record Revocation =
  Timestamp :: int
  CertHash :: bytes
  rev_Signature :: bytes

text \<open>
  The functions that the code calls and that are declared outside the files at hand are
  parameters: \<^verbatim>\<open>x509.MarshalPKIXPublicKey\<close>, \<^verbatim>\<open>sha256.Sum256\<close> (on the bytes of a slice),
  \<^verbatim>\<open>pkcrypto.CertsFromDER\<close>, \<^verbatim>\<open>verifyCertSignature(parent, child)\<close>, the method
  \<^verbatim>\<open>Revocation.Verify(cert)\<close> and the method \<^verbatim>\<open>NodeID.Difficulty()\<close>. A nil error is \<open>None\<close>.
\<close>

record crypto_lib =
  MarshalPKIXPublicKey :: "ecdsa_PublicKey \<Rightarrow> error + bytes"
  Sum256 :: "bytes \<Rightarrow> 256 word"
  CertsFromDER :: "bytes list \<Rightarrow> error + x509_Certificate list"
  verifyCertSignature :: "x509_Certificate \<Rightarrow> x509_Certificate \<Rightarrow> error option"
  Revocation_Verify :: "Revocation \<Rightarrow> x509_Certificate \<Rightarrow> error option"
  Difficulty :: "NodeID \<Rightarrow> error + 16 word"

text \<open>\<^verbatim>\<open>mid[:]\<close> and \<^verbatim>\<open>id.Bytes()\<close>: the 32 bytes of a digest, first byte first.\<close>

definition digest_bytes :: "256 word \<Rightarrow> bytes" where
  "digest_bytes d = map (\<lambda>i. ucast (drop_bit (8 * (31 - i)) d)) [0..<32]"

text \<open>A function returning \<^verbatim>\<open>(storj.NodeID, error)\<close> is modelled with a sum: \<open>Inl\<close> is the
  return of \<^verbatim>\<open>storj.NodeID{}\<close> with a non-nil error.\<close>

definition NodeIDFromECDSAKey :: "crypto_lib \<Rightarrow> ecdsa_PublicKey \<Rightarrow> error + NodeID" where
  "NodeIDFromECDSAKey L k =
     (case MarshalPKIXPublicKey L k of
        Inl err \<Rightarrow> Inl (Wrap ErrNodeID err)
      | Inr kb \<Rightarrow>
          (let mid = Sum256 L kb;
               end' = Sum256 L (digest_bytes mid)
           in Inr end'))"

definition NodeIDFromKey :: "crypto_lib \<Rightarrow> PublicKey \<Rightarrow> error + NodeID" where
  "NodeIDFromKey L k =
     (case k of
        ECDSA ek \<Rightarrow> NodeIDFromECDSAKey L ek
      | NotECDSA ty \<Rightarrow> Inl (New ErrNodeID ''invalid key type: %T''))"

text \<open>
  Modelled from the spec: the constants \<^verbatim>\<open>LeafIndex\<close> and \<^verbatim>\<open>CAIndex\<close> of package \<^verbatim>\<open>peertls\<close>,
  whose declarations are not among the source files. In the spec's chain the leaf is at
  index 0 and the CA at index 1, as in \<^verbatim>\<open>verifyIdentity\<close>, which reads \<^verbatim>\<open>parsedChains[0][0]\<close> and
  \<^verbatim>\<open>parsedChains[0][1]\<close>.
\<close>

definition LeafIndex :: nat where "LeafIndex = 0"
definition CAIndex :: nat where "CAIndex = 1"

text \<open>Indexing a slice panics out of range; reading through a nil pointer panics.\<close>

definition index :: "'a list \<Rightarrow> nat \<Rightarrow> 'a result" where
  "index xs i = (if i < length xs then Returns (xs ! i) else Panics IndexOutOfRange)"

definition deref :: "'a option \<Rightarrow> 'a result" where
  "deref p = (case p of None \<Rightarrow> Panics NilPointerDereference | Some v \<Rightarrow> Returns v)"

record PeerIdentity =
  RestChain :: "x509_Certificate list"
  CA :: x509_Certificate
  Leaf :: x509_Certificate
  ID :: NodeID

text \<open>
  \<^verbatim>\<open>peer.Peer\<close> of gRPC: its \<^verbatim>\<open>AuthInfo\<close> is a \<^verbatim>\<open>credentials.TLSInfo\<close>, of which the code reads
  \<^verbatim>\<open>State.PeerCertificates\<close>, or a value of another type. A context holds a peer or none
  (\<^verbatim>\<open>peer.FromContext\<close>).
\<close>

datatype AuthInfo = TLSInfo "x509_Certificate list" | OtherAuthInfo

record Peer =
  peer_AuthInfo :: AuthInfo

record Context =
  peer_FromContext :: "Peer option"

text \<open>
  A function returning \<^verbatim>\<open>(*PeerIdentity, error)\<close> returns a pair of a pointer (\<open>None\<close> is nil)
  and an error.
\<close>

definition PeerIdentityFromCerts ::
  "crypto_lib \<Rightarrow> x509_Certificate \<Rightarrow> x509_Certificate \<Rightarrow> x509_Certificate list
     \<Rightarrow> PeerIdentity option \<times> error option" where
  "PeerIdentityFromCerts L leaf ca rest =
     (case NodeIDFromKey L (cert_PublicKey ca) of
        Inl err \<Rightarrow> (None, Some err)
      | Inr i \<Rightarrow> (Some \<lparr>RestChain = rest, CA = ca, Leaf = leaf, ID = i\<rparr>, None))"

definition PeerIdentityFromPeer ::
  "crypto_lib \<Rightarrow> Peer \<Rightarrow> (PeerIdentity option \<times> error option) result" where
  "PeerIdentityFromPeer L peer =
     (case peer_AuthInfo peer of
        OtherAuthInfo \<Rightarrow> Panics TypeAssertionFailed
      | TLSInfo c \<Rightarrow>
          if length c < 2 then Returns (None, Some (New identity_Error ''invalid certificate chain''))
          else (case PeerIdentityFromCerts L (c ! LeafIndex) (c ! CAIndex) (drop 2 c) of
                  (pi, Some err) \<Rightarrow> Returns (None, Some err)
                | (pi, None) \<Rightarrow> Returns (pi, None)))"

definition PeerIdentityFromContext ::
  "crypto_lib \<Rightarrow> Context \<Rightarrow> (PeerIdentity option \<times> error option) result" where
  "PeerIdentityFromContext L ctx =
     (case peer_FromContext ctx of
        None \<Rightarrow> Returns (None, Some (New identity_Error ''unable to get grpc peer from contex''))
      | Some p \<Rightarrow> PeerIdentityFromPeer L p)"

section \<open>The verification pipeline (package peertls)\<close>

text \<open>
  A \<^verbatim>\<open>PeerCertVerificationFunc\<close> takes the raw chain and the parsed chains; a nil function
  value is \<open>None\<close>. A nil slice of certificates is \<open>None\<close>, a non-nil one \<open>Some\<close> of its
  elements.
\<close>

type_synonym PeerCertVerificationFunc =
  "bytes list \<Rightarrow> x509_Certificate list list \<Rightarrow> error option result"

text \<open>
  The loop of \<^verbatim>\<open>VerifyPeerFunc\<close> over \<^verbatim>\<open>next\<close>, from position \<open>i\<close>. Beside its result it
  gives the calls it made, in order: the position of the verifier called and the two
  arguments handed to it.
\<close>

type_synonym verifier_call = "nat \<times> bytes list \<times> x509_Certificate list list"

fun range_next ::
  "nat \<Rightarrow> PeerCertVerificationFunc option list \<Rightarrow> bytes list \<Rightarrow> x509_Certificate list
     \<Rightarrow> verifier_call list \<times> error option result" where
  "range_next i [] chain c = ([], Returns None)"
| "range_next i (None # next) chain c = range_next (Suc i) next chain c"
| "range_next i (Some n # next) chain c =
     (case n chain [c] of
        Panics p \<Rightarrow> ([(i, chain, [c])], Panics p)
      | Returns (Some err) \<Rightarrow> ([(i, chain, [c])], Returns (Some (Wrap ErrVerifyPeerCert err)))
      | Returns None \<Rightarrow>
          (case range_next (Suc i) next chain c of
             (calls, r) \<Rightarrow> ((i, chain, [c]) # calls, r)))"

definition VerifyPeerFunc_run ::
  "crypto_lib \<Rightarrow> PeerCertVerificationFunc option list \<Rightarrow> bytes list
     \<Rightarrow> verifier_call list \<times> error option result" where
  "VerifyPeerFunc_run L next chain =
     (case CertsFromDER L chain of
        Inl err \<Rightarrow> ([], Returns (Some (Wrap ErrVerifyPeerCert err)))
      | Inr c \<Rightarrow> range_next 0 next chain c)"

definition VerifyPeerFunc ::
  "crypto_lib \<Rightarrow> PeerCertVerificationFunc option list \<Rightarrow> PeerCertVerificationFunc" where
  "VerifyPeerFunc L next = (\<lambda>chain _. snd (VerifyPeerFunc_run L next chain))"

text \<open>The loop of the function that \<^verbatim>\<open>VerifyCAWhitelist\<close> returns.\<close>

fun range_cas ::
  "crypto_lib \<Rightarrow> x509_Certificate list \<Rightarrow> x509_Certificate list list \<Rightarrow> error option result" where
  "range_cas L [] parsedChains = Returns (Some (New ErrVerifyCAWhitelist ''CA cert''))"
| "range_cas L (ca # cas) parsedChains =
     (case index parsedChains 0 of
        Panics p \<Rightarrow> Panics p
      | Returns chain0 \<Rightarrow>
          (case index chain0 CAIndex of
             Panics p \<Rightarrow> Panics p
           | Returns c \<Rightarrow>
               (case verifyCertSignature L ca c of
                  None \<Rightarrow> Returns None
                | Some err \<Rightarrow> range_cas L cas parsedChains)))"

definition VerifyCAWhitelist ::
  "crypto_lib \<Rightarrow> x509_Certificate list option \<Rightarrow> PeerCertVerificationFunc option" where
  "VerifyCAWhitelist L cas =
     (case cas of
        None \<Rightarrow> None
      | Some cas' \<Rightarrow> Some (\<lambda>_ parsedChains. range_cas L cas' parsedChains))"

text \<open>
  The revocation database: \<^verbatim>\<open>revDB.Get(chain)\<close> returns a pointer to the last revocation
  of the chain's CA (nil when there is none) and an error. The verifier is given with the
  calls it makes to the database and to \<^verbatim>\<open>Revocation.Verify\<close>.
\<close>

record RevocationDB =
  Get :: "x509_Certificate list \<Rightarrow> Revocation option \<times> error option"

datatype rev_call = Call_Get "x509_Certificate list" | Call_Verify Revocation x509_Certificate

definition VerifyUnrevokedChainFunc_run ::
  "crypto_lib \<Rightarrow> RevocationDB \<Rightarrow> bytes list \<Rightarrow> x509_Certificate list list
     \<Rightarrow> rev_call list \<times> error option result" where
  "VerifyUnrevokedChainFunc_run L revDB raw chs =
     (case index chs 0 of
        Panics p \<Rightarrow> ([], Panics p)
      | Returns chain0 \<Rightarrow>
     (case index chain0 LeafIndex of
        Panics p \<Rightarrow> ([], Panics p)
      | Returns leaf \<Rightarrow>
     (case index chain0 CAIndex of
        Panics p \<Rightarrow> ([], Panics p)
      | Returns ca \<Rightarrow>
     (case Get revDB chain0 of
        (lastRev, Some lastRevErr) \<Rightarrow>
          ([Call_Get chain0], Returns (Some (Wrap ErrExtension lastRevErr)))
      | (None, None) \<Rightarrow> ([Call_Get chain0], Returns None)
      | (Some lastRev, None) \<Rightarrow>
          if CertHash lastRev = Raw ca \<or> CertHash lastRev = Raw leaf
          then (case Revocation_Verify L lastRev ca of
                  Some lastRevErr \<Rightarrow>
                    ([Call_Get chain0, Call_Verify lastRev ca],
                     Returns (Some (Wrap ErrExtension lastRevErr)))
                | None \<Rightarrow>
                    ([Call_Get chain0, Call_Verify lastRev ca], Returns (Some ErrRevokedCert)))
          else ([Call_Get chain0], Returns None)))))"

definition VerifyUnrevokedChainFunc ::
  "crypto_lib \<Rightarrow> RevocationDB \<Rightarrow> PeerCertVerificationFunc" where
  "VerifyUnrevokedChainFunc L revDB =
     (\<lambda>raw chs. snd (VerifyUnrevokedChainFunc_run L revDB raw chs))"

section \<open>The bandwidth-agreement receiver (package bwagreement)\<close>

text \<open>The fields of the messages of package \<^verbatim>\<open>pb\<close> that the receiver reads.\<close>

record PayerBandwidthAllocation =
  SatelliteId :: NodeID
  UplinkId :: NodeID
  ExpirationUnixSec :: "64 word"
  SerialNumber :: string
  pba_Signature :: bytes
  pba_Certs :: "bytes list"

record RenterBandwidthAllocation =
  PayerAllocation :: PayerBandwidthAllocation
  StorageNodeId :: NodeID
  rba_Signature :: bytes
  rba_Certs :: "bytes list"

datatype AgreementsSummary_Status = OK | FAIL | REJECTED

record AgreementsSummary =
  Status :: AgreementsSummary_Status

text \<open>
  A \<^verbatim>\<open>time.Time\<close> without monotonic clock reading (as \<^verbatim>\<open>time.Unix\<close> and \<^verbatim>\<open>Time.UTC\<close> return
  it): \<open>ext\<close> is the \<^verbatim>\<open>int64\<close> number of seconds since January 1 of year 1, \<open>nsec\<close> the
  nanoseconds within the second. \<^verbatim>\<open>time.Unix(sec, 0)\<close> adds the offset of the Unix epoch in
  \<^verbatim>\<open>int64\<close> arithmetic; \<^verbatim>\<open>Before\<close> compares seconds, then nanoseconds.
\<close>

record Time =
  ext :: "64 word"
  nsec :: nat

definition unixToInternal :: "64 word" where
  "unixToInternal = 62135596800"

definition time_Unix :: "64 word \<Rightarrow> Time" where
  "time_Unix sec = \<lparr>ext = sec + unixToInternal, nsec = 0\<rparr>"

definition Before :: "Time \<Rightarrow> Time \<Rightarrow> bool" where
  "Before t u = (sint (ext t) < sint (ext u) \<or> sint (ext t) = sint (ext u) \<and> nsec t < nsec u)"

text \<open>
  Parameters: \<^verbatim>\<open>x509.ParsePKIXPublicKey\<close>, \<^verbatim>\<open>proto.Marshal\<close> on the two message types and
  \<^verbatim>\<open>cryptopasta.Verify(data, sig, pubkey)\<close>.
\<close>

record bw_lib =
  ParsePKIXPublicKey :: "bytes \<Rightarrow> error + PublicKey"
  Marshal_rba :: "RenterBandwidthAllocation \<Rightarrow> error + bytes"
  Marshal_pba :: "PayerBandwidthAllocation \<Rightarrow> error + bytes"
  cryptopasta_Verify :: "bytes \<Rightarrow> bytes \<Rightarrow> ecdsa_PublicKey \<Rightarrow> bool"

text \<open>
  The server. Its two stores are the functions they compute on this call:
  \<^verbatim>\<open>db.CreateAgreement\<close> returns nil (\<open>None\<close>) or an error, given by its text
  \<^verbatim>\<open>err.Error()\<close>; \<^verbatim>\<open>uplinkdb.GetPublicKey\<close> returns the \<^verbatim>\<open>PublicKey\<close> bytes of the uplink's
  record or an error.
\<close>

record Server =
  db_CreateAgreement :: "RenterBandwidthAllocation \<Rightarrow> string option"
  uplinkdb_GetPublicKey :: "bytes \<Rightarrow> error + bytes"
  pkey :: PublicKey
  srv_NodeID :: NodeID

definition verifySignature :: "bw_lib \<Rightarrow> Server \<Rightarrow> RenterBandwidthAllocation \<Rightarrow> error option" where
  "verifySignature B s rba =
     (let pba = PayerAllocation rba in
      case uplinkdb_GetPublicKey s (digest_bytes (UplinkId pba)) of
        Inl err \<Rightarrow>
          Some (Wrap ErrRenter (New ErrVerify ''Failed to unmarshal PayerBandwidthAllocation: %+v''))
      | Inr uplinkInfo_PublicKey \<Rightarrow>
     (case ParsePKIXPublicKey B uplinkInfo_PublicKey of
        Inl err \<Rightarrow>
          Some (New bwagreement_Error
                  ''Failed to extract Public Key from RenterBandwidthAllocation: %+v'')
      | Inr pubkey \<Rightarrow>
     (case pubkey of
        NotECDSA ty \<Rightarrow> Some (New ErrUnsupportedKey ''%T'')
      | ECDSA k \<Rightarrow>
          (let signatureLength = Curve_BitLen k div 8 in
           if length (rba_Signature rba) < signatureLength
           then Some (Wrap ErrRenter (New ErrSigLen ''%d vs %d''))
           else
             (let rbad = rba\<lparr>rba_Signature := [], rba_Certs := []\<rparr> in
              case Marshal_rba B rbad of
                Inl err \<Rightarrow> Some (New bwagreement_Error ''marshalling error: %+v'')
              | Inr rbadBytes \<Rightarrow>
                  if \<not> cryptopasta_Verify B rbadBytes (rba_Signature rba) k
                  then Some (Wrap ErrRenter (New ErrVerify ''%+v''))
                  else
                    (case pkey s of
                       NotECDSA ty \<Rightarrow> Some (New ErrUnsupportedKey ''%T'')
                     | ECDSA k' \<Rightarrow>
                         (let signatureLength' = Curve_BitLen k' div 8 in
                          if length (pba_Signature pba) < signatureLength'
                          then Some (Wrap ErrPayer (New ErrSigLen ''%d vs %d''))
                          else
                            (let pbad = pba\<lparr>pba_Signature := [], pba_Certs := []\<rparr> in
                             case Marshal_pba B pbad of
                               Inl err \<Rightarrow> Some (New bwagreement_Error ''marshalling error: %+v'')
                             | Inr pbadBytes \<Rightarrow>
                                 if \<not> cryptopasta_Verify B pbadBytes (pba_Signature pba) k'
                                 then Some (Wrap ErrPayer (New ErrVerify ''%+v''))
                                 else None))))))))"

text \<open>
  \<^verbatim>\<open>BandwidthAgreements\<close>, in three parts: \<open>store_agreement\<close> is the call of
  \<^verbatim>\<open>db.CreateAgreement\<close> with what follows it, \<open>check_and_store\<close> the checks of the satellite
  ID, of the expiration and of the signatures before it. \<open>now\<close> is the value of
  \<^verbatim>\<open>time.Now().UTC()\<close> in the comparison; the deferred monitoring call is not modelled.
  In \<^verbatim>\<open>err != nil || rba.StorageNodeId != pi.ID\<close> the right operand is evaluated only when
  \<^verbatim>\<open>err\<close> is nil; the arguments of \<^verbatim>\<open>auth.ErrBadID.New\<close> in the return statement, \<^verbatim>\<open>pi.ID\<close>
  among them, are evaluated whenever that statement is reached.
\<close>

definition store_agreement ::
  "Server \<Rightarrow> AgreementsSummary \<Rightarrow> RenterBandwidthAllocation
     \<Rightarrow> AgreementsSummary \<times> error option" where
  "store_agreement s reply rba =
     (case db_CreateAgreement s rba of
        Some txt \<Rightarrow>
          if sublist ''UNIQUE constraint failed'' txt \<or> sublist ''violates unique constraint'' txt
          then (reply, Some (Wrap ErrPayer (Wrap ErrSerial (Foreign txt))))
          else (reply\<lparr>Status := FAIL\<rparr>, Some (Wrap ErrPayer (Foreign txt)))
      | None \<Rightarrow> (reply\<lparr>Status := OK\<rparr>, None))"

definition check_and_store ::
  "bw_lib \<Rightarrow> Server \<Rightarrow> Time \<Rightarrow> AgreementsSummary \<Rightarrow> RenterBandwidthAllocation
     \<Rightarrow> AgreementsSummary \<times> error option" where
  "check_and_store B s now reply rba =
     (let pba = PayerAllocation rba in
      if SatelliteId pba \<noteq> srv_NodeID s
      then (reply, Some (New ErrPayer ''Satellite ID: %v vs %v''))
      else
        (let exp = time_Unix (ExpirationUnixSec pba) in
         if Before exp now
         then (reply, Some (Wrap ErrPayer (New ErrExpired ''%v vs %v'')))
         else
           (case verifySignature B s rba of
              Some err \<Rightarrow> (reply, Some err)
            | None \<Rightarrow> store_agreement s reply rba)))"

definition BandwidthAgreements ::
  "crypto_lib \<Rightarrow> bw_lib \<Rightarrow> Server \<Rightarrow> Time \<Rightarrow> Context \<Rightarrow> RenterBandwidthAllocation
     \<Rightarrow> (AgreementsSummary \<times> error option) result" where
  "BandwidthAgreements L B s now ctx rba =
     (let reply = \<lparr>Status = REJECTED\<rparr> in
      case PeerIdentityFromContext L ctx of
        Panics p \<Rightarrow> Panics p
      | Returns (pi, Some err) \<Rightarrow>
          (case deref pi of
             Panics p \<Rightarrow> Panics p
           | Returns pi' \<Rightarrow> Returns (reply, Some (New ErrBadID ''Storage Node ID: %v vs %v'')))
      | Returns (pi, None) \<Rightarrow>
          (case deref pi of
             Panics p \<Rightarrow> Panics p
           | Returns pi' \<Rightarrow>
               if StorageNodeId rba \<noteq> ID pi'
               then Returns (reply, Some (New ErrBadID ''Storage Node ID: %v vs %v''))
               else Returns (check_and_store B s now reply rba)))"

section \<open>Key generation and \<^verbatim>\<open>NewCA\<close> (package identity)\<close>

record ecdsa_PrivateKey =
  priv_PublicKey :: ecdsa_PublicKey
  priv_D :: int

text \<open>
  One pass through the body of the loop of \<^verbatim>\<open>GenerateKey\<close> after the check of the
  context: \<open>r\<close> is what \<^verbatim>\<open>pkcrypto.GeneratePrivateKey()\<close> returns in this pass. The result is
  \<open>None\<close> when the difficulty is below \<^verbatim>\<open>minDifficulty\<close> and the loop goes on,
  \<open>Some (Inl err)\<close> when the loop is left by \<^verbatim>\<open>break\<close> and \<^verbatim>\<open>GenerateKey\<close> returns the error
  \<^verbatim>\<open>storj.ErrNodeID.Wrap(err)\<close>, and \<open>Some (Inr (k, nid))\<close> when it returns \<^verbatim>\<open>k, id, nil\<close>.
\<close>

definition GenerateKey_body ::
  "crypto_lib \<Rightarrow> 16 word \<Rightarrow> error + ecdsa_PrivateKey
     \<Rightarrow> (error + ecdsa_PrivateKey \<times> NodeID) option" where
  "GenerateKey_body L minDifficulty r =
     (case r of
        Inl err \<Rightarrow> Some (Inl (Wrap ErrNodeID err))
      | Inr k \<Rightarrow>
          (case NodeIDFromECDSAKey L (priv_PublicKey k) of
             Inl err \<Rightarrow> Some (Inl (Wrap ErrNodeID err))
           | Inr nid \<Rightarrow>
               (case Difficulty L nid of
                  Inl err \<Rightarrow> Some (Inl (Wrap ErrNodeID err))
                | Inr d \<Rightarrow> if minDifficulty \<le> d then Some (Inr (k, nid)) else None)))"

text \<open>
  \<^verbatim>\<open>GenerateKeys\<close> starts \<^verbatim>\<open>concurrency\<close> goroutines and returns the first value sent on
  \<^verbatim>\<open>errchan\<close>. The goroutines act on each other in three places only: the state of the
  context, read by \<^verbatim>\<open>ctx.Err()\<close> at the head of the loop of \<^verbatim>\<open>GenerateKey\<close>; the variables that
  the callback \<^verbatim>\<open>found\<close> shares; and the channel. A run is therefore a sequence of events,
  each the step of one goroutine between two such places, or the cancellation of the context
  from outside:
  \<^item> \<open>Check w\<close>: goroutine \<open>w\<close>, at the head of the loop, reads \<^verbatim>\<open>ctx.Err()\<close>; on an error
    \<^verbatim>\<open>GenerateKey\<close> returns it wrapped and the goroutine is about to send it;
  \<^item> \<open>Attempt w r\<close>: goroutine \<open>w\<close>, past the check, runs the rest of the loop body with \<open>r\<close>
    the generated key or the generator's error; with a key of sufficient difficulty
    \<^verbatim>\<open>GenerateKey\<close> returns and the goroutine calls \<^verbatim>\<open>found\<close>, which acts on its shared
    variables in one step (the callback of \<^verbatim>\<open>NewCA\<close> guards them by a mutex);
  \<^item> \<open>Send w\<close>: goroutine \<open>w\<close> sends its value on the channel (which has room for one value
    of each goroutine) and returns;
  \<^item> \<open>Cancel reason\<close>: the context is cancelled from outside.
  An event that names a goroutine which is not at that place changes nothing.
\<close>

datatype worker = LoopHead | Checked | Sending "error option" | Exited

datatype event =
    Cancel error
  | Check nat
  | Attempt nat "error + ecdsa_PrivateKey"
  | Send nat

type_synonym 's GenerateCallback =
  "ecdsa_PrivateKey \<Rightarrow> NodeID \<Rightarrow> 's \<Rightarrow> (bool \<times> error option) \<times> 's"

text \<open>
  The state of a run: the error of the context (\<^verbatim>\<open>ctx.Err()\<close>), the place of each goroutine,
  the values sent on the channel, the variables shared by the callback, and (for the
  statements only) the calls of the callback made so far, each with its arguments and its
  results.
\<close>

record 's generator =
  ctx_Err :: "error option"
  workers :: "worker list"
  errchan :: "error option list"
  shared :: 's
  found_calls :: "(ecdsa_PrivateKey \<times> NodeID \<times> bool \<times> error option) list"

definition set_worker :: "nat \<Rightarrow> worker \<Rightarrow> 's generator \<Rightarrow> 's generator" where
  "set_worker w st g = g\<lparr>workers := (workers g)[w := st]\<rparr>"

definition at_place :: "'s generator \<Rightarrow> nat \<Rightarrow> worker \<Rightarrow> bool" where
  "at_place g w st = (w < length (workers g) \<and> workers g ! w = st)"

definition call_found ::
  "'s GenerateCallback \<Rightarrow> nat \<Rightarrow> ecdsa_PrivateKey \<Rightarrow> NodeID \<Rightarrow> 's generator \<Rightarrow> 's generator" where
  "call_found found w k nid g =
     (case found k nid (shared g) of
        ((done, err), v) \<Rightarrow>
          set_worker w
            (case err of
               Some e \<Rightarrow> Sending (Some e)
             | None \<Rightarrow> if done then Sending None else LoopHead)
            (g\<lparr>shared := v, found_calls := found_calls g @ [(k, nid, done, err)]\<rparr>))"

fun step ::
  "crypto_lib \<Rightarrow> 16 word \<Rightarrow> 's GenerateCallback \<Rightarrow> event \<Rightarrow> 's generator \<Rightarrow> 's generator" where
  "step L minDifficulty found (Cancel reason) g =
     (if ctx_Err g = None then g\<lparr>ctx_Err := Some reason\<rparr> else g)"
| "step L minDifficulty found (Check w) g =
     (if at_place g w LoopHead
      then (case ctx_Err g of
              None \<Rightarrow> set_worker w Checked g
            | Some err \<Rightarrow> set_worker w (Sending (Some (Wrap ErrNodeID err))) g)
      else g)"
| "step L minDifficulty found (Attempt w r) g =
     (if at_place g w Checked
      then (case GenerateKey_body L minDifficulty r of
              None \<Rightarrow> set_worker w LoopHead g
            | Some (Inl err) \<Rightarrow> set_worker w (Sending (Some err)) g
            | Some (Inr (k, nid)) \<Rightarrow> call_found found w k nid g)
      else g)"
| "step L minDifficulty found (Send w) g =
     (if w < length (workers g)
      then (case workers g ! w of
              Sending m \<Rightarrow> (set_worker w Exited g)\<lparr>errchan := errchan g @ [m]\<rparr>
            | _ \<Rightarrow> g)
      else g)"

text \<open>The events of a schedule, one after the other, until a value is on the channel.\<close>

fun run ::
  "crypto_lib \<Rightarrow> 16 word \<Rightarrow> 's GenerateCallback \<Rightarrow> event list \<Rightarrow> 's generator \<Rightarrow> 's generator" where
  "run L minDifficulty found [] g = g"
| "run L minDifficulty found (e # es) g =
     (if errchan g \<noteq> [] then g
      else run L minDifficulty found es (step L minDifficulty found e g))"

text \<open>
  \<^verbatim>\<open>GenerateKeys\<close> under a schedule. \<open>ctx\<close> is the error of the context at the call (\<open>None\<close>
  while it is not cancelled), \<open>v\<close> the initial value of the callback's variables. The result
  is \<open>None\<close> when the call has not returned at the end of the schedule; otherwise it is the
  return value, or the panic of \<^verbatim>\<open>make(chan error, concurrency)\<close> on a negative size,
  together with the final state.
\<close>

definition GenerateKeys_run ::
  "crypto_lib \<Rightarrow> error option \<Rightarrow> 16 word \<Rightarrow> int \<Rightarrow> 's GenerateCallback \<Rightarrow> 's \<Rightarrow> event list
     \<Rightarrow> (error option result \<times> 's generator) option" where
  "GenerateKeys_run L ctx minDifficulty concurrency found v sched =
     (let g0 = \<lparr>ctx_Err = ctx, workers = replicate (nat concurrency) LoopHead, errchan = [],
                shared = v, found_calls = []\<rparr>
      in if concurrency < 0 then Some (Panics MakeChanSizeOutOfRange, g0)
         else (let g = run L minDifficulty found sched g0
               in case errchan g of
                    [] \<Rightarrow> None
                  | m # ms \<Rightarrow> Some (Returns m, g)))"

definition GenerateKeys ::
  "crypto_lib \<Rightarrow> error option \<Rightarrow> 16 word \<Rightarrow> int \<Rightarrow> 's GenerateCallback \<Rightarrow> 's \<Rightarrow> event list
     \<Rightarrow> error option result option" where
  "GenerateKeys L ctx minDifficulty concurrency found v sched =
     map_option fst (GenerateKeys_run L ctx minDifficulty concurrency found v sched)"

text \<open>
  \<^verbatim>\<open>NewCA\<close>. The options (\<open>has_Logger\<close> says whether \<^verbatim>\<open>opts.Logger\<close> is not nil; what is
  written to the logger is not modelled), the variables shared by the callback (\<open>i_var\<close> is the
  counter \<^verbatim>\<open>i\<close>), and the callback itself. \<^verbatim>\<open>opts.Concurrency\<close> is a \<^verbatim>\<open>uint\<close> of 64 bits, converted by
  \<^verbatim>\<open>int(opts.Concurrency)\<close>.
\<close>

definition minimumLoggableDifficulty :: "16 word" where
  "minimumLoggableDifficulty = 8"

record NewCAOptions =
  opt_Difficulty :: "16 word"
  Concurrency :: "64 word"
  ParentCert :: "x509_Certificate option"
  ParentKey :: "ecdsa_PrivateKey option"
  has_Logger :: bool

record NewCA_vars =
  highscore :: "32 word"
  i_var :: "32 word"
  selectedKey :: "ecdsa_PrivateKey option"
  selectedID :: NodeID

record FullCertificateAuthority =
  ca_RestChain :: "x509_Certificate list"
  ca_Cert :: x509_Certificate
  ca_ID :: NodeID
  ca_Key :: "ecdsa_PrivateKey option"

definition NewCA_found :: "crypto_lib \<Rightarrow> NewCAOptions \<Rightarrow> NewCA_vars GenerateCallback" where
  "NewCA_found L opts k nid v =
     (let v1 = (if has_Logger opts then v\<lparr>i_var := i_var v + 1\<rparr> else v) in
      case Difficulty L nid of
        Inl err \<Rightarrow> ((False, Some err), v1)
      | Inr difficulty \<Rightarrow>
          if opt_Difficulty opts \<le> difficulty
          then
            (let v2 = (if selectedKey v1 = None
                       then v1\<lparr>selectedKey := Some k, selectedID := nid\<rparr> else v1);
                 v3 = (if has_Logger opts then v2\<lparr>highscore := ucast difficulty\<rparr> else v2)
             in ((True, None), v3))
          else
            (let hs = highscore v1 in
             if ucast difficulty \<le> hs then ((False, None), v1)
             else ((False, None), v1\<lparr>highscore := ucast difficulty\<rparr>)))"

text \<open>
  Parameters of \<^verbatim>\<open>NewCA\<close>: the result of \<^verbatim>\<open>peertls.CATemplate()\<close>, and, for \<^verbatim>\<open>peertls.NewCert\<close>,
  \<^verbatim>\<open>x509.CreateCertificate\<close> (given the template, the parent, the key whose public key is
  certified and the signing key) and \<^verbatim>\<open>pkcrypto.CertFromDER\<close>. A private key is a
  \<^verbatim>\<open>crypto.PrivateKey\<close>, which may be nil (\<open>None\<close>); \<^verbatim>\<open>errs.Wrap(err)\<close>, which adds no class,
  is \<open>err\<close>.
\<close>

record cert_lib =
  CATemplate :: "error + x509_Certificate"
  CreateCertificate ::
    "x509_Certificate \<Rightarrow> x509_Certificate \<Rightarrow> ecdsa_PrivateKey option \<Rightarrow> ecdsa_PrivateKey option
       \<Rightarrow> error + bytes"
  CertFromDER :: "bytes \<Rightarrow> error + x509_Certificate"

definition NewCert ::
  "cert_lib \<Rightarrow> ecdsa_PrivateKey option \<Rightarrow> ecdsa_PrivateKey option \<Rightarrow> x509_Certificate
     \<Rightarrow> x509_Certificate option \<Rightarrow> error + x509_Certificate" where
  "NewCert C key parentKey template parent =
     (let signingKey = (case parentKey of Some pk \<Rightarrow> Some pk | None \<Rightarrow> key);
          parent' = (case parent of None \<Rightarrow> template | Some p \<Rightarrow> p)
      in case CreateCertificate C template parent' key signingKey of
           Inl err \<Rightarrow> Inl err
         | Inr cb \<Rightarrow>
             (case CertFromDER C cb of
                Inl err \<Rightarrow> Inl err
              | Inr cert \<Rightarrow> Inr cert))"

definition NewCA_run ::
  "crypto_lib \<Rightarrow> cert_lib \<Rightarrow> error option \<Rightarrow> NewCAOptions \<Rightarrow> event list
     \<Rightarrow> ((error + FullCertificateAuthority) result \<times> NewCA_vars generator) option" where
  "NewCA_run L C ctx opts0 sched =
     (let opts = (if Concurrency opts0 < 1 then opts0\<lparr>Concurrency := 1\<rparr> else opts0) in
      case GenerateKeys_run L ctx minimumLoggableDifficulty (sint (Concurrency opts))
             (NewCA_found L opts)
             \<lparr>highscore = 0, i_var = 0, selectedKey = None, selectedID = 0\<rparr> sched of
        None \<Rightarrow> None
      | Some (Panics p, g) \<Rightarrow> Some (Panics p, g)
      | Some (Returns (Some err), g) \<Rightarrow> Some (Returns (Inl err), g)
      | Some (Returns None, g) \<Rightarrow>
          (case CATemplate C of
             Inl err \<Rightarrow> Some (Returns (Inl err), g)
           | Inr ct \<Rightarrow>
               (case NewCert C (selectedKey (shared g)) (ParentKey opts) ct (ParentCert opts) of
                  Inl err \<Rightarrow> Some (Returns (Inl err), g)
                | Inr c \<Rightarrow>
                    Some (Returns (Inr
                      \<lparr>ca_RestChain = (case ParentCert opts of None \<Rightarrow> [] | Some p \<Rightarrow> [p]),
                       ca_Cert = c,
                       ca_ID = selectedID (shared g),
                       ca_Key = selectedKey (shared g)\<rparr>), g))))"

definition NewCA ::
  "crypto_lib \<Rightarrow> cert_lib \<Rightarrow> error option \<Rightarrow> NewCAOptions \<Rightarrow> event list
     \<Rightarrow> (error + FullCertificateAuthority) result option" where
  "NewCA L C ctx opts sched = map_option fst (NewCA_run L C ctx opts sched)"

text \<open>
  A candidate meets the configured floor; the arguments of the calls of the callback.
\<close>

definition meets_floor :: "crypto_lib \<Rightarrow> NewCAOptions \<Rightarrow> ecdsa_PrivateKey \<times> NodeID \<Rightarrow> bool" where
  "meets_floor L opts = (\<lambda>(k, nid). case Difficulty L nid of
                                       Inl err \<Rightarrow> False
                                     | Inr d \<Rightarrow> opt_Difficulty opts \<le> d)"

definition candidates :: "'s generator \<Rightarrow> (ecdsa_PrivateKey \<times> NodeID) list" where
  "candidates g = map (\<lambda>(k, nid, done, err). (k, nid)) (found_calls g)"

section \<open>Notions used to state the properties\<close>

text \<open>
  The verifiers of a list that are not nil, each with its position, in the order of the list
  (positions counted from \<open>i\<close>); and what it is for one of them to pass a chain.
\<close>

fun non_nil :: "nat \<Rightarrow> 'a option list \<Rightarrow> (nat \<times> 'a) list" where
  "non_nil i [] = []"
| "non_nil i (None # xs) = non_nil (Suc i) xs"
| "non_nil i (Some x # xs) = (i, x) # non_nil (Suc i) xs"

definition passes :: "bytes list \<Rightarrow> x509_Certificate list \<Rightarrow> nat \<times> PeerCertVerificationFunc \<Rightarrow> bool" where
  "passes chain c = (\<lambda>(i, n). n chain [c] = Returns None)"

text \<open>The class of an error made or wrapped by an \<^verbatim>\<open>errs.Class\<close>.\<close>

fun error_class :: "error \<Rightarrow> err_class option" where
  "error_class (Foreign txt) = None"
| "error_class (New c txt) = Some c"
| "error_class (Wrap c e) = Some c"
| "error_class ErrRevokedCert = None"

text \<open>The instant of a \<^verbatim>\<open>time.Time\<close> in nanoseconds since the Unix epoch, as an integer.\<close>

definition unix_nanos :: "Time \<Rightarrow> int" where
  "unix_nanos t = (sint (ext t) - 62135596800) * 1000000000 + int (nsec t)"

text \<open>
  Notions for the runs of the key generator: a call of the callback has returned done
  without error; where an error that the call returns comes from (the error of the context,
  a failed pass of \<^verbatim>\<open>GenerateKey\<close> among the events \<open>E\<close>, or a call of the callback); the
  values that goroutines are about to send or have sent; every goroutine that has returned
  has sent its value.
\<close>

definition done_called :: "'s generator \<Rightarrow> bool" where
  "done_called g = (\<exists>(k, nid, done, err) \<in> set (found_calls g). done \<and> err = None)"

definition error_origin ::
  "crypto_lib \<Rightarrow> 16 word \<Rightarrow> event set \<Rightarrow> 's generator \<Rightarrow> error \<Rightarrow> bool" where
  "error_origin L minDifficulty E g e =
     ((\<exists>reason. ctx_Err g = Some reason \<and> e = Wrap ErrNodeID reason)
      \<or> (\<exists>w r. Attempt w r \<in> E \<and> GenerateKey_body L minDifficulty r = Some (Inl e))
      \<or> (\<exists>(k, nid, done, err) \<in> set (found_calls g). err = Some e))"

definition pending :: "'s generator \<Rightarrow> error option set" where
  "pending g = {m. Sending m \<in> set (workers g)} \<union> set (errchan g)"

definition exited_sent :: "'s generator \<Rightarrow> bool" where
  "exited_sent g = (Exited \<in> set (workers g) \<longrightarrow> errchan g \<noteq> [])"

text \<open>
  The state in which \<^verbatim>\<open>GenerateKeys\<close> starts its goroutines, and a sequence of events in which
  no goroutine sends.
\<close>

definition start :: "error option \<Rightarrow> int \<Rightarrow> 's \<Rightarrow> 's generator" where
  "start ctx c v = \<lparr>ctx_Err = ctx, workers = replicate (nat c) LoopHead, errchan = [],
                    shared = v, found_calls = []\<rparr>"

definition no_Send :: "event list \<Rightarrow> bool" where
  "no_Send es = (\<forall>w. Send w \<notin> set es)"

text \<open>
  The context is cancelled with error \<open>reason\<close> and no goroutine has passed the check of the
  context: every value sent or about to be sent is that error, wrapped.
\<close>

definition cancelled_at_start :: "error \<Rightarrow> 's generator \<Rightarrow> bool" where
  "cancelled_at_start reason g =
     (ctx_Err g = Some reason \<and> Checked \<notin> set (workers g)
      \<and> pending g \<subseteq> {Some (Wrap ErrNodeID reason)})"

text \<open>
  The invariant of the callback of \<^verbatim>\<open>NewCA\<close>: every candidate handed to it has passed the
  filter of the engine, the callback returns done only for a candidate that meets the
  configured floor, and the selected key and ID are those of the first candidate that
  meets it.
\<close>

definition ca_inv :: "crypto_lib \<Rightarrow> NewCAOptions \<Rightarrow> NewCA_vars generator \<Rightarrow> bool" where
  "ca_inv L opts g =
     ((\<forall>(k, nid, dn, err) \<in> set (found_calls g).
          (\<exists>d. Difficulty L nid = Inr d \<and> minimumLoggableDifficulty \<le> d)
          \<and> (dn \<longrightarrow> meets_floor L opts (k, nid)))
      \<and> (case find (meets_floor L opts) (candidates g) of
            None \<Rightarrow> selectedKey (shared g) = None
          | Some (k, nid) \<Rightarrow> selectedKey (shared g) = Some k \<and> selectedID (shared g) = nid))"

section \<open>Example values\<close>

text \<open>
  Small values for the parameters, on which the theorems below are instantiated: a
  library whose digest of a byte string is the sum of its bytes, in which the difficulty of
  a node ID is the number in its low 16 bits, whose certificates carry one fixed key, and in
  which a certificate verifies another one exactly when their raw bytes agree; a store that
  refuses the serial number \<open>''used''\<close> as already present.
\<close>

definition example_key :: ecdsa_PublicKey where
  "example_key = \<lparr>Curve_BitLen = 256, key_X = 1, key_Y = 2\<rparr>"

definition example_cert :: "bytes \<Rightarrow> x509_Certificate" where
  "example_cert r = \<lparr>Raw = r, cert_PublicKey = ECDSA example_key\<rparr>"

definition example_lib :: crypto_lib where
  "example_lib =
     \<lparr>MarshalPKIXPublicKey = (\<lambda>k. Inr [4, of_int (key_X k), of_int (key_Y k)]),
      Sum256 = (\<lambda>b. of_nat (sum_list (map unat b))),
      CertsFromDER = (\<lambda>raw. if [] \<in> set raw then Inl (Foreign ''asn1: syntax error'')
                             else Inr (map example_cert raw)),
      verifyCertSignature = (\<lambda>parent child. if Raw parent = Raw child then None
                                              else Some (Foreign ''x509: signature error'')),
      Revocation_Verify = (\<lambda>r cert. if rev_Signature r = Raw cert then None
                                      else Some (Foreign ''signature error'')),
      Difficulty = (\<lambda>id. Inr (ucast id))\<rparr>"

definition example_bw_lib :: bw_lib where
  "example_bw_lib =
     \<lparr>ParsePKIXPublicKey = (\<lambda>b. Inr (ECDSA example_key)),
      Marshal_rba = (\<lambda>r. Inr []),
      Marshal_pba = (\<lambda>p. Inr []),
      cryptopasta_Verify = (\<lambda>data sig k. length sig = 32)\<rparr>"

definition example_Server :: Server where
  "example_Server =
     \<lparr>db_CreateAgreement = (\<lambda>rba.
         if SerialNumber (PayerAllocation rba) = ''used''
         then Some ''UNIQUE constraint failed: bwagreements.serialnum''
         else if SerialNumber (PayerAllocation rba) = ''down''
         then Some ''connection refused''
         else None),
      uplinkdb_GetPublicKey = (\<lambda>id. Inr [4, 1, 2]),
      pkey = ECDSA example_key,
      srv_NodeID = 99\<rparr>"

definition example_ctx :: Context where
  "example_ctx = \<lparr>peer_FromContext = Some \<lparr>peer_AuthInfo = TLSInfo [example_cert [1], example_cert [2]]\<rparr>\<rparr>"

definition example_rba :: "string \<Rightarrow> 64 word \<Rightarrow> RenterBandwidthAllocation" where
  "example_rba serial expiration =
     \<lparr>PayerAllocation =
        \<lparr>SatelliteId = 99, UplinkId = 9, ExpirationUnixSec = expiration, SerialNumber = serial,
         pba_Signature = replicate 32 0, pba_Certs = []\<rparr>,
      StorageNodeId = 7, rba_Signature = replicate 32 0, rba_Certs = []\<rparr>"

definition example_now :: Time where
  "example_now = \<lparr>ext = 63835596800, nsec = 0\<rparr>"

definition example_revDB :: "bytes \<Rightarrow> RevocationDB" where
  "example_revDB h = \<lparr>Get = (\<lambda>chain. (Some \<lparr>Timestamp = 1, CertHash = h, rev_Signature = [2]\<rparr>, None))\<rparr>"

definition example_cert_lib :: cert_lib where
  "example_cert_lib =
     \<lparr>CATemplate = Inr (example_cert []),
      CreateCertificate = (\<lambda>template parent key signingKey. Inr [48]),
      CertFromDER = (\<lambda>b. Inr (example_cert b))\<rparr>"

definition key_of :: "int \<Rightarrow> ecdsa_PrivateKey" where
  "key_of x = \<lparr>priv_PublicKey = \<lparr>Curve_BitLen = 256, key_X = x, key_Y = 0\<rparr>, priv_D = x\<rparr>"

definition example_opts :: NewCAOptions where
  "example_opts = \<lparr>opt_Difficulty = 16, Concurrency = 2, ParentCert = None, ParentKey = None,
     has_Logger = True\<rparr>"

definition example_vars :: NewCA_vars where
  "example_vars = \<lparr>highscore = 0, i_var = 0, selectedKey = None, selectedID = 0\<rparr>"

definition canceled :: error where
  "canceled = Foreign ''context canceled''"

section \<open>Node IDs\<close>

lemma length_digest_bytes: "length (digest_bytes d) = 32"
  by (simp add: digest_bytes_def)

lemma example_digest: "Sum256 example_lib (digest_bytes (Sum256 example_lib [4, 1, 2])) = 7"
  by code_simp

text \<open>
  C5, as stated, fails for a key that is not an ECDSA key: the error that \<^verbatim>\<open>NodeIDFromKey\<close>
  returns is made by the class \<^verbatim>\<open>storj.ErrNodeID\<close>, not by the class of unsupported keys
  (\<^verbatim>\<open>peertls.ErrUnsupportedKey\<close>, which \<^verbatim>\<open>verifySignature\<close> uses for such a key).
\<close>

theorem NodeIDFromKey_error_class_counterexample:
  "NodeIDFromKey example_lib (NotECDSA ''*rsa.PublicKey'') =
     Inl (New ErrNodeID ''invalid key type: %T'')
   \<and> error_class (New ErrNodeID ''invalid key type: %T'') \<noteq> Some ErrUnsupportedKey"
  by (simp add: NodeIDFromKey_def)

text \<open>
  C5, amended. For an ECDSA public key \<open>ek\<close> with PKIX DER serialisation \<open>kb\<close>,
  \<^verbatim>\<open>NodeIDFromKey\<close> returns the SHA-256 digest of the SHA-256 digest of \<open>kb\<close>, a value of 32
  bytes; for a key that is not an ECDSA key it returns, instead of a node ID, an error of
  class \<^verbatim>\<open>ErrNodeID\<close> that says that the key type is invalid.
\<close>

theorem NodeIDFromKey_amended:
  "(MarshalPKIXPublicKey L ek = Inr kb \<longrightarrow>
      NodeIDFromKey L (ECDSA ek) = Inr (Sum256 L (digest_bytes (Sum256 L kb)))
      \<and> length (digest_bytes (Sum256 L (digest_bytes (Sum256 L kb)))) = 32)
   \<and> NodeIDFromKey L (NotECDSA ty) = Inl (New ErrNodeID ''invalid key type: %T'')
   \<and> error_class (New ErrNodeID ''invalid key type: %T'') = Some ErrNodeID"
  by (simp add: NodeIDFromKey_def NodeIDFromECDSAKey_def length_digest_bytes)

theorem NodeIDFromKey_amended_witness:
  "NodeIDFromKey example_lib (ECDSA example_key) = Inr 7
   \<and> NodeIDFromKey example_lib (NotECDSA ''*rsa.PublicKey'') = Inl (New ErrNodeID ''invalid key type: %T'')"
proof -
  have "MarshalPKIXPublicKey example_lib example_key = Inr [4, 1, 2]"
    by (simp add: example_lib_def example_key_def)
  with NodeIDFromKey_amended [of example_lib example_key "[4, 1, 2]" "''*rsa.PublicKey''"]
  show ?thesis
    by (simp add: example_digest)
qed

section \<open>The bandwidth-agreement receiver\<close>

lemma PeerIdentityFromContext_err:
  assumes "PeerIdentityFromContext L ctx = Returns (pi, Some err)"
  shows "pi = None"
  using assms
  by (auto simp: PeerIdentityFromContext_def PeerIdentityFromPeer_def
      split: option.splits AuthInfo.splits if_splits prod.splits)

lemma BandwidthAgreements_identified:
  assumes "PeerIdentityFromContext L ctx = Returns (Some pi, None)"
    and "StorageNodeId rba = ID pi"
  shows "BandwidthAgreements L B s now ctx rba =
           Returns (check_and_store B s now \<lparr>Status = REJECTED\<rparr> rba)"
  using assms by (simp add: BandwidthAgreements_def deref_def)

lemma example_identity:
  "PeerIdentityFromContext example_lib example_ctx =
     Returns (Some \<lparr>RestChain = [], CA = example_cert [2], Leaf = example_cert [1], ID = 7\<rparr>, None)"
proof -
  have "NodeIDFromKey example_lib (ECDSA example_key) = Inr 7"
    using example_digest
    by (simp add: NodeIDFromKey_def NodeIDFromECDSAKey_def) (simp add: example_lib_def example_key_def)
  then show ?thesis
    by (simp add: PeerIdentityFromContext_def PeerIdentityFromPeer_def PeerIdentityFromCerts_def
        example_ctx_def example_cert_def LeafIndex_def CAIndex_def)
qed

lemma example_verifySignature:
  "verifySignature example_bw_lib example_Server (example_rba serial expiration) = None"
  by (simp add: verifySignature_def example_bw_lib_def example_Server_def example_rba_def
      example_key_def)

text \<open>
  C1. When \<^verbatim>\<open>PeerIdentityFromContext\<close> returns an error, the identity pointer it returns is
  nil, and \<^verbatim>\<open>BandwidthAgreements\<close> reads \<^verbatim>\<open>pi.ID\<close> through it while it builds the
  \<^verbatim>\<open>ErrBadID\<close> error: the call panics and returns neither a reply nor an error.
\<close>

theorem BandwidthAgreements_without_identity:
  assumes "PeerIdentityFromContext L ctx = Returns (pi, Some err)"
  shows "BandwidthAgreements L B s now ctx rba = Panics NilPointerDereference"
proof -
  from assms have "pi = None" by (rule PeerIdentityFromContext_err)
  with assms show ?thesis
    by (simp add: BandwidthAgreements_def deref_def)
qed

theorem BandwidthAgreements_without_identity_witness:
  "BandwidthAgreements example_lib example_bw_lib example_Server example_now
     \<lparr>peer_FromContext = None\<rparr> (example_rba ''s1'' 1700000000) = Panics NilPointerDereference"
  using BandwidthAgreements_without_identity [of example_lib "\<lparr>peer_FromContext = None\<rparr>" None
      "New identity_Error ''unable to get grpc peer from contex''"]
  by (simp add: PeerIdentityFromContext_def)

subsection \<open>Expiration\<close>

lemma sint_unixToInternal: "sint unixToInternal = 62135596800"
  by (simp add: unixToInternal_def)

lemma sint_time_Unix:
  assumes "sint sec + 62135596800 < 2 ^ 63"
  shows "sint (ext (time_Unix sec)) = sint sec + 62135596800"
proof -
  have lo: "- (2 ^ 63) \<le> sint sec"
    using sint_ge [of sec] by simp
  have "sint (sec + unixToInternal) = signed_take_bit 63 (sint sec + sint unixToInternal)"
    by (simp add: sint_word_ariths)
  also have "\<dots> = sint sec + 62135596800"
    using assms lo by (simp add: sint_unixToInternal signed_take_bit_int_eq_self)
  finally show ?thesis by (simp add: time_Unix_def)
qed

lemma Before_time_Unix:
  assumes "nsec now < 1000000000"
    and "sint sec * 1000000000 \<le> unix_nanos now"
  shows "Before (time_Unix sec) now \<longleftrightarrow> sint sec * 1000000000 < unix_nanos now"
proof -
  have hi: "sint (ext now) < 2 ^ 63"
    using sint_lt [of "ext now"] by simp
  from assms have le: "sint sec + 62135596800 \<le> sint (ext now)"
    by (simp add: unix_nanos_def)
  with hi have "sint (ext (time_Unix sec)) = sint sec + 62135596800"
    by (intro sint_time_Unix) simp
  then show ?thesis
    using le assms by (auto simp: Before_def unix_nanos_def time_Unix_def)
qed

lemma verifySignature_not_expired:
  "verifySignature B s rba \<noteq> Some (Wrap ErrPayer (New ErrExpired txt))"
  by (simp add: verifySignature_def Let_def split: sum.splits PublicKey.splits)

lemma store_agreement_not_expired:
  "snd (store_agreement s reply rba) \<noteq> Some (Wrap ErrPayer (New ErrExpired txt))"
  by (simp add: store_agreement_def split: option.splits)

lemma check_and_store_expired:
  assumes "SatelliteId (PayerAllocation rba) = srv_NodeID s"
  shows "check_and_store B s now reply rba = (reply, Some (Wrap ErrPayer (New ErrExpired ''%v vs %v'')))
         \<longleftrightarrow> Before (time_Unix (ExpirationUnixSec (PayerAllocation rba))) now"
proof (cases "Before (time_Unix (ExpirationUnixSec (PayerAllocation rba))) now")
  case True
  with assms show ?thesis by (simp add: check_and_store_def)
next
  case False
  show ?thesis
  proof (cases "verifySignature B s rba")
    case None
    with False assms store_agreement_not_expired [of s reply rba "''%v vs %v''"] show ?thesis
      by (auto simp: check_and_store_def)
  next
    case (Some err)
    with False assms verifySignature_not_expired [of B s rba "''%v vs %v''"] show ?thesis
      by (auto simp: check_and_store_def)
  qed
qed

lemma example_instant: "unix_nanos example_now = 1700000000 * 1000000000"
  by (simp add: unix_nanos_def example_now_def)

lemma example_Before: "\<not> Before (time_Unix 1700000000) example_now"
  by (simp add: Before_def time_Unix_def example_now_def unixToInternal_def)

lemma example_check_and_store:
  "check_and_store example_bw_lib example_Server example_now reply (example_rba serial 1700000000) =
     store_agreement example_Server reply (example_rba serial 1700000000)"
proof -
  have "SatelliteId (PayerAllocation (example_rba serial 1700000000)) = srv_NodeID example_Server"
    and "ExpirationUnixSec (PayerAllocation (example_rba serial 1700000000)) = 1700000000"
    by (simp_all add: example_rba_def example_Server_def)
  then show ?thesis
    by (simp add: check_and_store_def example_verifySignature example_Before)
qed

text \<open>
  C2, as stated, fails: a request of an identified storage node whose allocation expires
  at exactly the current time, with valid signatures, is stored and answered with \<open>OK\<close>.
\<close>

theorem BandwidthAgreements_expiring_now_counterexample:
  "sint (ExpirationUnixSec (PayerAllocation (example_rba ''s1'' 1700000000))) * 1000000000
     = unix_nanos example_now
   \<and> BandwidthAgreements example_lib example_bw_lib example_Server example_now example_ctx
       (example_rba ''s1'' 1700000000) = Returns (\<lparr>Status = OK\<rparr>, None)"
proof -
  have "StorageNodeId (example_rba ''s1'' 1700000000) = 7"
    by (simp add: example_rba_def)
  then have "BandwidthAgreements example_lib example_bw_lib example_Server example_now example_ctx
       (example_rba ''s1'' 1700000000) =
       Returns (store_agreement example_Server \<lparr>Status = REJECTED\<rparr> (example_rba ''s1'' 1700000000))"
    using BandwidthAgreements_identified [OF example_identity]
    by (simp add: example_check_and_store)
  moreover have "db_CreateAgreement example_Server (example_rba ''s1'' 1700000000) = None"
    by (simp add: example_Server_def example_rba_def)
  ultimately show ?thesis
    by (simp add: store_agreement_def example_instant) (simp add: example_rba_def)
qed

text \<open>
  C2, amended. For a request that passes the identity and satellite checks and whose
  allocation's expiration instant is not later than the current time, the call rejects it
  with \<^verbatim>\<open>ErrPayer\<close> wrapping \<^verbatim>\<open>ErrExpired\<close> exactly when the expiration instant is strictly
  earlier than the current time.
\<close>

theorem BandwidthAgreements_expired_amended:
  assumes "PeerIdentityFromContext L ctx = Returns (Some pi, None)"
    and "StorageNodeId rba = ID pi"
    and "SatelliteId (PayerAllocation rba) = srv_NodeID s"
    and "nsec now < 1000000000"
    and "sint (ExpirationUnixSec (PayerAllocation rba)) * 1000000000 \<le> unix_nanos now"
  shows "BandwidthAgreements L B s now ctx rba =
           Returns (\<lparr>Status = REJECTED\<rparr>, Some (Wrap ErrPayer (New ErrExpired ''%v vs %v'')))
         \<longleftrightarrow> sint (ExpirationUnixSec (PayerAllocation rba)) * 1000000000 < unix_nanos now"
proof -
  have "BandwidthAgreements L B s now ctx rba =
          Returns (check_and_store B s now \<lparr>Status = REJECTED\<rparr> rba)"
    using assms(1,2) by (rule BandwidthAgreements_identified)
  then show ?thesis
    using check_and_store_expired [OF assms(3), of B now "\<lparr>Status = REJECTED\<rparr>"]
      Before_time_Unix [OF assms(4,5)]
    by simp
qed

theorem BandwidthAgreements_expired_amended_witness:
  "BandwidthAgreements example_lib example_bw_lib example_Server example_now example_ctx
       (example_rba ''s1'' 1699999999) =
     Returns (\<lparr>Status = REJECTED\<rparr>, Some (Wrap ErrPayer (New ErrExpired ''%v vs %v'')))
   \<and> BandwidthAgreements example_lib example_bw_lib example_Server example_now example_ctx
       (example_rba ''s1'' 1700000000) \<noteq>
     Returns (\<lparr>Status = REJECTED\<rparr>, Some (Wrap ErrPayer (New ErrExpired ''%v vs %v'')))"
proof -
  have id: "StorageNodeId (example_rba ''s1'' e) = ID \<lparr>RestChain = [], CA = example_cert [2], Leaf = example_cert [1], ID = 7\<rparr>" for e
    by (simp add: example_rba_def)
  have sat: "SatelliteId (PayerAllocation (example_rba ''s1'' e)) = srv_NodeID example_Server" for e
    by (simp add: example_rba_def example_Server_def)
  have ns: "nsec example_now < 1000000000"
    by (simp add: example_now_def)
  have e1: "sint (ExpirationUnixSec (PayerAllocation (example_rba ''s1'' 1699999999))) = 1699999999"
    and e2: "sint (ExpirationUnixSec (PayerAllocation (example_rba ''s1'' 1700000000))) = 1700000000"
    by (simp_all add: example_rba_def)
  show ?thesis
    using BandwidthAgreements_expired_amended [OF example_identity id sat ns, of 1699999999 example_bw_lib]
      BandwidthAgreements_expired_amended [OF example_identity id sat ns, of 1700000000 example_bw_lib]
    by (simp add: e1 e2 example_instant)
qed

subsection \<open>Storing the agreement\<close>

text \<open>
  C7. When all checks pass: if \<^verbatim>\<open>db.CreateAgreement\<close> succeeds the reply is \<open>OK\<close> with no
  error; if it fails with a text that contains \<open>''UNIQUE constraint failed''\<close> or
  \<open>''violates unique constraint''\<close> the call returns \<^verbatim>\<open>ErrPayer\<close> wrapping \<^verbatim>\<open>ErrSerial\<close> (the
  reply keeps the status \<open>REJECTED\<close>); for every other error of the store the reply is
  \<open>FAIL\<close> with an \<^verbatim>\<open>ErrPayer\<close> error.
\<close>

theorem BandwidthAgreements_store:
  assumes "PeerIdentityFromContext L ctx = Returns (Some pi, None)"
    and "StorageNodeId rba = ID pi"
    and "SatelliteId (PayerAllocation rba) = srv_NodeID s"
    and "\<not> Before (time_Unix (ExpirationUnixSec (PayerAllocation rba))) now"
    and "verifySignature B s rba = None"
  shows "(db_CreateAgreement s rba = None \<longrightarrow>
            BandwidthAgreements L B s now ctx rba = Returns (\<lparr>Status = OK\<rparr>, None))
       \<and> (\<forall>txt. db_CreateAgreement s rba = Some txt \<longrightarrow>
            (if sublist ''UNIQUE constraint failed'' txt \<or> sublist ''violates unique constraint'' txt
             then BandwidthAgreements L B s now ctx rba =
                    Returns (\<lparr>Status = REJECTED\<rparr>, Some (Wrap ErrPayer (Wrap ErrSerial (Foreign txt))))
             else BandwidthAgreements L B s now ctx rba =
                    Returns (\<lparr>Status = FAIL\<rparr>, Some (Wrap ErrPayer (Foreign txt)))))"
proof -
  have "BandwidthAgreements L B s now ctx rba = Returns (store_agreement s \<lparr>Status = REJECTED\<rparr> rba)"
    using assms by (simp add: BandwidthAgreements_identified check_and_store_def)
  then show ?thesis
    by (auto simp: store_agreement_def)
qed

theorem BandwidthAgreements_store_witness:
  "BandwidthAgreements example_lib example_bw_lib example_Server example_now example_ctx
     (example_rba ''s1'' 1700000000) = Returns (\<lparr>Status = OK\<rparr>, None)
   \<and> BandwidthAgreements example_lib example_bw_lib example_Server example_now example_ctx
     (example_rba ''used'' 1700000000) =
       Returns (\<lparr>Status = REJECTED\<rparr>,
         Some (Wrap ErrPayer (Wrap ErrSerial
           (Foreign ''UNIQUE constraint failed: bwagreements.serialnum''))))
   \<and> BandwidthAgreements example_lib example_bw_lib example_Server example_now example_ctx
     (example_rba ''down'' 1700000000) =
       Returns (\<lparr>Status = FAIL\<rparr>, Some (Wrap ErrPayer (Foreign ''connection refused'')))"
proof -
  have id: "StorageNodeId (example_rba serial 1700000000) =
      ID \<lparr>RestChain = [], CA = example_cert [2], Leaf = example_cert [1], ID = 7\<rparr>" for serial
    by (simp add: example_rba_def)
  have sat: "SatelliteId (PayerAllocation (example_rba serial 1700000000)) = srv_NodeID example_Server"
    for serial
    by (simp add: example_rba_def example_Server_def)
  have exp: "\<not> Before (time_Unix (ExpirationUnixSec (PayerAllocation (example_rba serial 1700000000))))
      example_now" for serial
    using example_Before by (simp add: example_rba_def)
  have db: "db_CreateAgreement example_Server (example_rba ''s1'' 1700000000) = None"
    "db_CreateAgreement example_Server (example_rba ''used'' 1700000000) =
       Some ''UNIQUE constraint failed: bwagreements.serialnum''"
    "db_CreateAgreement example_Server (example_rba ''down'' 1700000000) = Some ''connection refused''"
    by (simp_all add: example_Server_def example_rba_def)
  have sub: "sublist ''UNIQUE constraint failed'' ''UNIQUE constraint failed: bwagreements.serialnum''"
    "\<not> sublist ''UNIQUE constraint failed'' ''connection refused''"
    "\<not> sublist ''violates unique constraint'' ''connection refused''"
    by code_simp+
  show ?thesis
    using BandwidthAgreements_store [OF example_identity id sat exp example_verifySignature, of "''s1''"]
      BandwidthAgreements_store [OF example_identity id sat exp example_verifySignature, of "''used''"]
      BandwidthAgreements_store [OF example_identity id sat exp example_verifySignature, of "''down''"]
    by (simp add: db sub)
qed

section \<open>The verification pipeline\<close>

lemma range_cas_found:
  assumes "index parsedChains 0 = Returns chain0" and "index chain0 CAIndex = Returns c"
  shows "range_cas L cas parsedChains =
           Returns (if \<exists>ca\<in>set cas. verifyCertSignature L ca c = None then None
                    else Some (New ErrVerifyCAWhitelist ''CA cert''))"
  using assms by (induction cas) (auto split: option.splits)

text \<open>
  C3, as stated, fails for a whitelist that is empty but not nil: \<^verbatim>\<open>VerifyCAWhitelist\<close>
  builds a verifier, and it rejects the chain.
\<close>

theorem VerifyCAWhitelist_empty_counterexample:
  "VerifyCAWhitelist example_lib (Some []) \<noteq> None
   \<and> the (VerifyCAWhitelist example_lib (Some [])) [[1], [2]] [[example_cert [1], example_cert [2]]]
       = Returns (Some (New ErrVerifyCAWhitelist ''CA cert''))"
  by (simp add: VerifyCAWhitelist_def)

text \<open>
  C3, amended. For a nil whitelist \<^verbatim>\<open>VerifyCAWhitelist\<close> returns the nil verifier (which
  \<^verbatim>\<open>VerifyPeerFunc\<close> skips). For every whitelist that is not nil it returns a verifier
  which, on every parsed chain that has a certificate at \<^verbatim>\<open>CAIndex\<close>, passes exactly when
  some certificate of the whitelist verifies the signature of that certificate, and fails
  with \<^verbatim>\<open>ErrVerifyCAWhitelist\<close> otherwise; so the verifier of an empty whitelist fails on
  every such chain.
\<close>

theorem VerifyCAWhitelist_amended:
  "VerifyCAWhitelist L None = None
   \<and> (\<exists>f. VerifyCAWhitelist L (Some cas) = Some f
        \<and> (\<forall>raw chain0 others. CAIndex < length chain0 \<longrightarrow>
              f raw (chain0 # others) =
                Returns (if \<exists>ca\<in>set cas. verifyCertSignature L ca (chain0 ! CAIndex) = None
                         then None else Some (New ErrVerifyCAWhitelist ''CA cert''))))"
  by (simp add: VerifyCAWhitelist_def range_cas_found index_def)

theorem VerifyCAWhitelist_amended_witness:
  "the (VerifyCAWhitelist example_lib (Some [example_cert [3], example_cert [2]])) [[1], [2]]
     [[example_cert [1], example_cert [2]]] = Returns None
   \<and> the (VerifyCAWhitelist example_lib (Some [example_cert [3]])) [[1], [2]]
     [[example_cert [1], example_cert [2]]] = Returns (Some (New ErrVerifyCAWhitelist ''CA cert''))"
proof -
  have len: "CAIndex < length [example_cert [1], example_cert [2]]"
    by (simp add: CAIndex_def)
  have nth: "[example_cert [1], example_cert [2]] ! CAIndex = example_cert [2]"
    by (simp add: CAIndex_def)
  have v: "verifyCertSignature example_lib (example_cert [2]) (example_cert [2]) = None"
    "verifyCertSignature example_lib (example_cert [3]) (example_cert [2]) \<noteq> None"
    by (simp_all add: example_lib_def example_cert_def)
  from VerifyCAWhitelist_amended [of example_lib "[example_cert [3], example_cert [2]]"]
  obtain f where f: "VerifyCAWhitelist example_lib (Some [example_cert [3], example_cert [2]]) = Some f"
    "f [[1], [2]] [[example_cert [1], example_cert [2]]] = Returns None"
    using len by (auto simp: nth v)
  from VerifyCAWhitelist_amended [of example_lib "[example_cert [3]]"]
  obtain g where g: "VerifyCAWhitelist example_lib (Some [example_cert [3]]) = Some g"
    "g [[1], [2]] [[example_cert [1], example_cert [2]]] =
       Returns (Some (New ErrVerifyCAWhitelist ''CA cert''))"
    using len by (auto simp: nth v)
  from f g show ?thesis by simp
qed

subsection \<open>Revocation\<close>

lemma run_unrevoked_indexed:
  assumes "CAIndex < length chain0"
  shows "VerifyUnrevokedChainFunc_run L revDB raw (chain0 # others) =
     (case Get revDB chain0 of
        (lastRev, Some lastRevErr) \<Rightarrow>
          ([Call_Get chain0], Returns (Some (Wrap ErrExtension lastRevErr)))
      | (None, None) \<Rightarrow> ([Call_Get chain0], Returns None)
      | (Some lastRev, None) \<Rightarrow>
          if CertHash lastRev = Raw (chain0 ! CAIndex) \<or> CertHash lastRev = Raw (chain0 ! LeafIndex)
          then (case Revocation_Verify L lastRev (chain0 ! CAIndex) of
                  Some lastRevErr \<Rightarrow>
                    ([Call_Get chain0, Call_Verify lastRev (chain0 ! CAIndex)],
                     Returns (Some (Wrap ErrExtension lastRevErr)))
                | None \<Rightarrow>
                    ([Call_Get chain0, Call_Verify lastRev (chain0 ! CAIndex)], Returns (Some ErrRevokedCert)))
          else ([Call_Get chain0], Returns None))"
proof -
  from assms have "index chain0 LeafIndex = Returns (chain0 ! LeafIndex)"
    and "index chain0 CAIndex = Returns (chain0 ! CAIndex)"
    by (auto simp: index_def CAIndex_def LeafIndex_def)
  moreover have "index (chain0 # others) 0 = Returns chain0"
    by (simp add: index_def)
  ultimately show ?thesis
    by (simp add: VerifyUnrevokedChainFunc_run_def)
qed

text \<open>
  C6. On a chain with a leaf and a CA, when the store answers without error: the verifier
  passes if there is no record for the chain's CA; if the record's hash equals the raw bytes
  of the CA or of the leaf, the verifier fails with \<^verbatim>\<open>ErrRevokedCert\<close> when the record's
  signature verifies against the CA and with an \<^verbatim>\<open>ErrExtension\<close> error when it does not.
\<close>

theorem VerifyUnrevokedChainFunc_spec:
  assumes "CAIndex < length chain0" and "Get revDB chain0 = (r, None)"
  shows "(r = None \<longrightarrow> VerifyUnrevokedChainFunc L revDB raw (chain0 # others) = Returns None)
       \<and> (\<forall>lastRev. r = Some lastRev
              \<and> (CertHash lastRev = Raw (chain0 ! CAIndex) \<or> CertHash lastRev = Raw (chain0 ! LeafIndex)) \<longrightarrow>
            (Revocation_Verify L lastRev (chain0 ! CAIndex) = None \<longrightarrow>
               VerifyUnrevokedChainFunc L revDB raw (chain0 # others) = Returns (Some ErrRevokedCert))
          \<and> (\<forall>e. Revocation_Verify L lastRev (chain0 ! CAIndex) = Some e \<longrightarrow>
               VerifyUnrevokedChainFunc L revDB raw (chain0 # others) =
                 Returns (Some (Wrap ErrExtension e))))"
  using assms by (auto simp: VerifyUnrevokedChainFunc_def run_unrevoked_indexed)

theorem VerifyUnrevokedChainFunc_spec_witness:
  "VerifyUnrevokedChainFunc example_lib (example_revDB [1]) [[1], [2]]
     [[example_cert [1], example_cert [2]]] = Returns (Some ErrRevokedCert)
   \<and> VerifyUnrevokedChainFunc example_lib (example_revDB [3]) [[1], [3]]
     [[example_cert [1], example_cert [3]]] = Returns (Some (Wrap ErrExtension (Foreign ''signature error'')))
   \<and> VerifyUnrevokedChainFunc example_lib \<lparr>Get = (\<lambda>chain. (None, None))\<rparr> [[1], [2]]
     [[example_cert [1], example_cert [2]]] = Returns None"
proof -
  have len: "CAIndex < length [example_cert [1], example_cert [2]]"
    "CAIndex < length [example_cert [1], example_cert [3]]"
    by (simp_all add: CAIndex_def)
  have get: "Get (example_revDB [1]) [example_cert [1], example_cert [2]] =
      (Some \<lparr>Timestamp = 1, CertHash = [1], rev_Signature = [2]\<rparr>, None)"
    "Get (example_revDB [3]) [example_cert [1], example_cert [3]] =
      (Some \<lparr>Timestamp = 1, CertHash = [3], rev_Signature = [2]\<rparr>, None)"
    by (simp_all add: example_revDB_def)
  have none: "Get \<lparr>Get = (\<lambda>chain. (None, None))\<rparr> [example_cert [1], example_cert [2]] = (None, None)"
    by simp
  show ?thesis
    using VerifyUnrevokedChainFunc_spec [OF len(1) get(1), where L = example_lib
        and raw = "[[1], [2]]" and others = "[]"]
      VerifyUnrevokedChainFunc_spec [OF len(2) get(2), where L = example_lib
        and raw = "[[1], [3]]" and others = "[]"]
      VerifyUnrevokedChainFunc_spec [OF len(1) none, where L = example_lib
        and raw = "[[1], [2]]" and others = "[]"]
    by (simp add: CAIndex_def LeafIndex_def example_lib_def example_cert_def)
qed

text \<open>
  C10. On a chain with a leaf and a CA, when the store holds a record for the chain's CA
  whose hash equals neither the raw bytes of the CA nor those of the leaf, the verifier
  passes, and the only call it makes is the lookup in the store:
  \<^verbatim>\<open>Revocation.Verify\<close> is not called.
\<close>

theorem VerifyUnrevokedChainFunc_other_hash:
  assumes "CAIndex < length chain0" and "Get revDB chain0 = (Some lastRev, None)"
    and "CertHash lastRev \<noteq> Raw (chain0 ! CAIndex)" and "CertHash lastRev \<noteq> Raw (chain0 ! LeafIndex)"
  shows "VerifyUnrevokedChainFunc L revDB raw (chain0 # others) = Returns None
       \<and> fst (VerifyUnrevokedChainFunc_run L revDB raw (chain0 # others)) = [Call_Get chain0]"
  using assms by (simp add: VerifyUnrevokedChainFunc_def run_unrevoked_indexed)

theorem VerifyUnrevokedChainFunc_other_hash_witness:
  "VerifyUnrevokedChainFunc example_lib (example_revDB [9]) [[1], [2]]
     [[example_cert [1], example_cert [2]]] = Returns None
   \<and> fst (VerifyUnrevokedChainFunc_run example_lib (example_revDB [9]) [[1], [2]]
     [[example_cert [1], example_cert [2]]]) = [Call_Get [example_cert [1], example_cert [2]]]"
proof -
  have len: "CAIndex < length [example_cert [1], example_cert [2]]"
    by (simp add: CAIndex_def)
  have get: "Get (example_revDB [9]) [example_cert [1], example_cert [2]] =
      (Some \<lparr>Timestamp = 1, CertHash = [9], rev_Signature = [2]\<rparr>, None)"
    by (simp add: example_revDB_def)
  have ne: "CertHash \<lparr>Timestamp = 1, CertHash = [9], rev_Signature = [2]\<rparr>
        \<noteq> Raw ([example_cert [1], example_cert [2]] ! CAIndex)"
    "CertHash \<lparr>Timestamp = 1, CertHash = [9], rev_Signature = [2]\<rparr>
        \<noteq> Raw ([example_cert [1], example_cert [2]] ! LeafIndex)"
    by (simp_all add: CAIndex_def LeafIndex_def example_cert_def)
  show ?thesis
    using VerifyUnrevokedChainFunc_other_hash [OF len get ne, where L = example_lib
        and raw = "[[1], [2]]" and others = "[]"]
    by simp
qed

subsection \<open>The composed verifier\<close>

lemma range_next_calls:
  "fst (range_next i next chain c) =
     map (\<lambda>(j, n). (j, chain, [c]))
       (takeWhile (passes chain c) (non_nil i next) @ take 1 (dropWhile (passes chain c) (non_nil i next)))"
proof (induction i "next" chain c rule: range_next.induct)
  case (1 i chain c)
  then show ?case by simp
next
  case (2 i "next" chain c)
  then show ?case by simp
next
  case (3 i n "next" chain c)
  then show ?case
    by (auto simp: passes_def split: result.splits option.splits prod.splits)
qed

lemma range_next_result:
  "snd (range_next i next chain c) =
     (case dropWhile (passes chain c) (non_nil i next) of
        [] \<Rightarrow> Returns None
      | (j, n) # _ \<Rightarrow>
          (case n chain [c] of
             Panics p \<Rightarrow> Panics p
           | Returns e \<Rightarrow> Returns (map_option (Wrap ErrVerifyPeerCert) e)))"
proof (induction i "next" chain c rule: range_next.induct)
  case (1 i chain c)
  then show ?case by simp
next
  case (2 i "next" chain c)
  then show ?case by simp
next
  case (3 i n "next" chain c)
  then show ?case
    by (auto simp: passes_def split: result.splits option.splits prod.splits)
qed

lemma range_next_success:
  "snd (range_next i next chain c) = Returns None \<longleftrightarrow>
     (\<forall>n. Some n \<in> set next \<longrightarrow> n chain [c] = Returns None)"
proof (induction i "next" chain c rule: range_next.induct)
  case (1 i chain c)
  then show ?case by simp
next
  case (2 i "next" chain c)
  then show ?case by simp
next
  case (3 i n "next" chain c)
  then show ?case
    by (auto split: result.splits option.splits prod.splits)
qed

text \<open>
  C8. \<^verbatim>\<open>VerifyPeerFunc\<close> parses the raw chain; when parsing fails it calls no verifier and
  returns the parse error wrapped under \<^verbatim>\<open>ErrVerifyPeerCert\<close>. Otherwise it calls the
  verifiers that are not nil in the order of the list, each with the raw chain and with the
  parsed chain as the only element of the parsed chains, up to and including the first one
  that does not pass, and returns that one's error wrapped under \<^verbatim>\<open>ErrVerifyPeerCert\<close>; it
  returns nil exactly when parsing succeeds and every verifier that is not nil passes.
\<close>

theorem VerifyPeerFunc_spec:
  "(\<forall>err. CertsFromDER L chain = Inl err \<longrightarrow>
       VerifyPeerFunc_run L next chain = ([], Returns (Some (Wrap ErrVerifyPeerCert err))))
   \<and> (\<forall>c. CertsFromDER L chain = Inr c \<longrightarrow>
       fst (VerifyPeerFunc_run L next chain) =
         map (\<lambda>(j, n). (j, chain, [c]))
           (takeWhile (passes chain c) (non_nil 0 next)
              @ take 1 (dropWhile (passes chain c) (non_nil 0 next)))
       \<and> VerifyPeerFunc L next chain unused =
           (case dropWhile (passes chain c) (non_nil 0 next) of
              [] \<Rightarrow> Returns None
            | (j, n) # _ \<Rightarrow>
                (case n chain [c] of
                   Panics p \<Rightarrow> Panics p
                 | Returns e \<Rightarrow> Returns (map_option (Wrap ErrVerifyPeerCert) e))))
   \<and> (VerifyPeerFunc L next chain unused = Returns None \<longleftrightarrow>
        (\<exists>c. CertsFromDER L chain = Inr c
           \<and> (\<forall>n. Some n \<in> set next \<longrightarrow> n chain [c] = Returns None)))"
proof (intro conjI allI impI)
  fix err assume "CertsFromDER L chain = Inl err"
  then show "VerifyPeerFunc_run L next chain = ([], Returns (Some (Wrap ErrVerifyPeerCert err)))"
    by (simp add: VerifyPeerFunc_run_def)
next
  fix c assume "CertsFromDER L chain = Inr c"
  then show "fst (VerifyPeerFunc_run L next chain) =
         map (\<lambda>(j, n). (j, chain, [c]))
           (takeWhile (passes chain c) (non_nil 0 next)
              @ take 1 (dropWhile (passes chain c) (non_nil 0 next)))"
    by (simp add: VerifyPeerFunc_run_def range_next_calls)
next
  fix c assume "CertsFromDER L chain = Inr c"
  then show "VerifyPeerFunc L next chain unused =
           (case dropWhile (passes chain c) (non_nil 0 next) of
              [] \<Rightarrow> Returns None
            | (j, n) # _ \<Rightarrow>
                (case n chain [c] of
                   Panics p \<Rightarrow> Panics p
                 | Returns e \<Rightarrow> Returns (map_option (Wrap ErrVerifyPeerCert) e)))"
    by (simp add: VerifyPeerFunc_def VerifyPeerFunc_run_def range_next_result)
next
  show "VerifyPeerFunc L next chain unused = Returns None \<longleftrightarrow>
        (\<exists>c. CertsFromDER L chain = Inr c
           \<and> (\<forall>n. Some n \<in> set next \<longrightarrow> n chain [c] = Returns None))"
    by (cases "CertsFromDER L chain")
       (simp_all add: VerifyPeerFunc_def VerifyPeerFunc_run_def range_next_success)
qed

theorem VerifyPeerFunc_spec_witness:
  "VerifyPeerFunc_run example_lib
     [None, Some (\<lambda>raw chs. Returns None), Some (\<lambda>raw chs. Returns (Some (Foreign ''refused''))),
      Some (\<lambda>raw chs. Returns None)] [[1], [2]] =
     ([(1, [[1], [2]], [[example_cert [1], example_cert [2]]]),
       (2, [[1], [2]], [[example_cert [1], example_cert [2]]])],
      Returns (Some (Wrap ErrVerifyPeerCert (Foreign ''refused''))))
   \<and> VerifyPeerFunc example_lib [None, Some (\<lambda>raw chs. Returns None)] [[1], [2]] [] = Returns None
   \<and> VerifyPeerFunc_run example_lib [Some (\<lambda>raw chs. Returns None)] [[1], []] =
       ([], Returns (Some (Wrap ErrVerifyPeerCert (Foreign ''asn1: syntax error''))))"
proof -
  have p: "CertsFromDER example_lib [[1], [2]] = Inr [example_cert [1], example_cert [2]]"
    "CertsFromDER example_lib [[1], []] = Inl (Foreign ''asn1: syntax error'')"
    by (simp_all add: example_lib_def)
  show ?thesis
    using VerifyPeerFunc_spec [of example_lib "[[1], [2]]"
        "[None, Some (\<lambda>raw chs. Returns None), Some (\<lambda>raw chs. Returns (Some (Foreign ''refused''))),
          Some (\<lambda>raw chs. Returns None)]" "[]"]
      VerifyPeerFunc_spec [of example_lib "[[1], [2]]" "[None, Some (\<lambda>raw chs. Returns None)]" "[]"]
      VerifyPeerFunc_spec [of example_lib "[[1], []]" "[Some (\<lambda>raw chs. Returns None)]" "[]"]
    by (simp add: p passes_def VerifyPeerFunc_def prod_eq_iff)
qed

section \<open>Key generation\<close>

lemma set_worker_simps [simp]:
  "ctx_Err (set_worker w st g) = ctx_Err g"
  "errchan (set_worker w st g) = errchan g"
  "shared (set_worker w st g) = shared g"
  "found_calls (set_worker w st g) = found_calls g"
  "workers (set_worker w st g) = (workers g)[w := st]"
  by (simp_all add: set_worker_def)

lemma in_set_update: "x \<in> set (xs[w := y]) \<Longrightarrow> x = y \<or> x \<in> set xs"
  using set_update_subset_insert [of xs w y] by auto

lemma pending_set_worker:
  "pending (set_worker w st g) \<subseteq> (case st of Sending m \<Rightarrow> {m} | _ \<Rightarrow> {}) \<union> pending g"
  by (auto simp: pending_def dest!: in_set_update split: worker.splits)

lemma run_stopped: "errchan g \<noteq> [] \<Longrightarrow> run L m found es g = g"
  by (cases es) simp_all

lemma run_append: "run L m found (xs @ ys) g = run L m found ys (run L m found xs g)"
  by (induction xs arbitrary: g) (simp_all add: run_stopped)

lemma length_workers_step [simp]: "length (workers (step L m found e g)) = length (workers g)"
  by (cases e) (auto simp: call_found_def split: option.splits sum.splits prod.splits worker.splits)

lemma length_workers_run [simp]: "length (workers (run L m found es g)) = length (workers g)"
  by (induction es arbitrary: g) simp_all

lemma pending_call_found:
  assumes "found k nid (shared g) = ((done, err), v)"
  shows "pending (call_found found w k nid g) \<subseteq>
           (case err of Some e \<Rightarrow> {Some e} | None \<Rightarrow> if done then {None} else {}) \<union> pending g"
    and "found_calls (call_found found w k nid g) = found_calls g @ [(k, nid, done, err)]"
    and "ctx_Err (call_found found w k nid g) = ctx_Err g"
    and "errchan (call_found found w k nid g) = errchan g"
    and "shared (call_found found w k nid g) = v"
  using assms
  by (auto simp: call_found_def pending_def dest!: in_set_update split: option.splits if_splits)

lemma pending_send:
  assumes "w < length (workers g)" and "workers g ! w = Sending m"
  shows "pending ((set_worker w Exited g)\<lparr>errchan := errchan g @ [m]\<rparr>) \<subseteq> pending g"
proof -
  from assms have "Sending m \<in> set (workers g)"
    by (metis nth_mem)
  then show ?thesis
    by (auto simp: pending_def dest!: in_set_update)
qed

text \<open>A nil value is sent only after a call of the callback has returned done without error.\<close>

lemma nil_pending_step:
  assumes "None \<in> pending g \<longrightarrow> done_called g"
  shows "None \<in> pending (step L m found e g) \<longrightarrow> done_called (step L m found e g)"
proof (cases e)
  case (Cancel reason)
  with assms show ?thesis by (simp add: pending_def done_called_def)
next
  case (Check w)
  with assms pending_set_worker [of w Checked g]
    pending_set_worker [of w "Sending (Some (Wrap ErrNodeID (the (ctx_Err g))))" g]
  show ?thesis
    by (auto simp: done_called_def split: option.splits)
next
  case (Attempt w r)
  show ?thesis
  proof (cases "at_place g w Checked")
    case False
    with Attempt assms show ?thesis by simp
  next
    case True
    show ?thesis
    proof (cases "GenerateKey_body L m r")
      case None
      with Attempt True assms pending_set_worker [of w LoopHead g] show ?thesis
        by (auto simp: done_called_def)
    next
      case (Some res)
      show ?thesis
      proof (cases res)
        case (Inl err)
        with Attempt True Some assms pending_set_worker [of w "Sending (Some err)" g] show ?thesis
          by (auto simp: done_called_def)
      next
        case (Inr cand)
        obtain k nid where cand: "cand = (k, nid)" by (cases cand)
        obtain dn err v where f: "found k nid (shared g) = ((dn, err), v)"
          by (metis prod.exhaust)
        have st: "step L m found e g = call_found found w k nid g"
          using Attempt True Some Inr cand by simp
        show ?thesis
        proof
          assume "None \<in> pending (step L m found e g)"
          with pending_call_found(1) [where found = found and k = k and nid = nid and g = g and w = w, OF f]
          have "(dn \<and> err = None) \<or> None \<in> pending g"
            by (auto simp: st split: option.splits if_splits)
          then show "done_called (step L m found e g)"
            using assms pending_call_found(2) [where found = found and k = k and nid = nid and g = g and w = w, OF f]
            by (auto simp: st done_called_def)
        qed
      qed
    qed
  qed
next
  case (Send w)
  show ?thesis
  proof (cases "w < length (workers g)")
    case False
    with Send assms show ?thesis by simp
  next
    case True
    show ?thesis
    proof (cases "workers g ! w")
      case (Sending msg)
      with Send True assms pending_send [of w g msg] show ?thesis
        by (auto simp: done_called_def)
    qed (use Send True assms in simp_all)
  qed
qed

lemma nil_pending_run:
  assumes "None \<in> pending g \<longrightarrow> done_called g"
  shows "None \<in> pending (run L m found es g) \<longrightarrow> done_called (run L m found es g)"
  using assms
proof (induction es arbitrary: g)
  case Nil
  then show ?case by simp
next
  case (Cons e es)
  show ?case
  proof (cases "errchan g = []")
    case True
    then show ?thesis
      using Cons.IH [OF nil_pending_step [OF Cons.prems]] by simp
  next
    case False
    with Cons.prems show ?thesis by simp
  qed
qed

lemma run_invariant:
  assumes "P g" and "\<And>e g. e \<in> set es \<Longrightarrow> P g \<Longrightarrow> P (step L m found e g)"
  shows "P (run L m found es g)"
  using assms
proof (induction es arbitrary: g)
  case Nil
  then show ?case by simp
next
  case (Cons e es)
  show ?case
  proof (cases "errchan g = []")
    case True
    have "P (step L m found e g)"
      using Cons.prems by simp
    then have "P (run L m found es (step L m found e g))"
      using Cons.prems(2) by (intro Cons.IH) simp_all
    with True show ?thesis by simp
  next
    case False
    with Cons.prems show ?thesis by simp
  qed
qed

lemma error_origin_mono:
  assumes "error_origin L m E g e"
    and "ctx_Err g \<noteq> None \<longrightarrow> ctx_Err g' = ctx_Err g"
    and "set (found_calls g) \<subseteq> set (found_calls g')"
  shows "error_origin L m E g' e"
  using assms unfolding error_origin_def by fastforce

text \<open>Every error that is sent is the wrapped error of the context, the wrapped error of a
  failed pass of key generation, or the error returned by a call of the callback.\<close>

lemma error_pending_step:
  assumes inv: "\<forall>e. Some e \<in> pending g \<longrightarrow> error_origin L m E g e" and ev: "ev \<in> E"
  shows "\<forall>e. Some e \<in> pending (step L m found ev g) \<longrightarrow> error_origin L m E (step L m found ev g) e"
proof (cases ev)
  case (Cancel reason)
  show ?thesis
  proof (intro allI impI)
    fix e assume "Some e \<in> pending (step L m found ev g)"
    then have "Some e \<in> pending g"
      using Cancel by (simp add: pending_def split: if_splits)
    with inv have "error_origin L m E g e" by simp
    then show "error_origin L m E (step L m found ev g) e"
      by (rule error_origin_mono) (use Cancel in auto)
  qed
next
  case (Check w)
  show ?thesis
  proof (cases "at_place g w LoopHead")
    case False
    with Check inv show ?thesis by simp
  next
    case True
    show ?thesis
    proof (cases "ctx_Err g")
      case None
      show ?thesis
      proof (intro allI impI)
        fix e assume "Some e \<in> pending (step L m found ev g)"
        with Check True None pending_set_worker [of w Checked g] have "Some e \<in> pending g"
          by auto
        with inv have "error_origin L m E g e" by simp
        then show "error_origin L m E (step L m found ev g) e"
          by (rule error_origin_mono) (use Check True None in auto)
      qed
    next
      case (Some c)
      show ?thesis
      proof (intro allI impI)
        fix e assume "Some e \<in> pending (step L m found ev g)"
        with Check True Some pending_set_worker [of w "Sending (Some (Wrap ErrNodeID c))" g]
        have "e = Wrap ErrNodeID c \<or> Some e \<in> pending g"
          by auto
        then show "error_origin L m E (step L m found ev g) e"
        proof
          assume "e = Wrap ErrNodeID c"
          with Check True Some show ?thesis
            by (simp add: error_origin_def)
        next
          assume "Some e \<in> pending g"
          with inv have "error_origin L m E g e" by simp
          then show ?thesis
            by (rule error_origin_mono) (use Check True Some in auto)
        qed
      qed
    qed
  qed
next
  case (Attempt w r)
  show ?thesis
  proof (cases "at_place g w Checked")
    case False
    with Attempt inv show ?thesis by simp
  next
    case True
    show ?thesis
    proof (cases "GenerateKey_body L m r")
      case None
      show ?thesis
      proof (intro allI impI)
        fix e assume "Some e \<in> pending (step L m found ev g)"
        with Attempt True None pending_set_worker [of w LoopHead g] have "Some e \<in> pending g"
          by auto
        with inv have "error_origin L m E g e" by simp
        then show "error_origin L m E (step L m found ev g) e"
          by (rule error_origin_mono) (use Attempt True None in auto)
      qed
    next
      case (Some res)
      show ?thesis
      proof (cases res)
        case (Inl err)
        show ?thesis
        proof (intro allI impI)
          fix e assume "Some e \<in> pending (step L m found ev g)"
          with Attempt True Some Inl pending_set_worker [of w "Sending (Some err)" g]
          have "e = err \<or> Some e \<in> pending g"
            by auto
          then show "error_origin L m E (step L m found ev g) e"
          proof
            assume "e = err"
            with Attempt Some Inl ev show ?thesis
              by (auto simp: error_origin_def)
          next
            assume "Some e \<in> pending g"
            with inv have "error_origin L m E g e" by simp
            then show ?thesis
              by (rule error_origin_mono) (use Attempt True Some Inl in auto)
          qed
        qed
      next
        case (Inr cand)
        obtain k nid where cand: "cand = (k, nid)" by (cases cand)
        obtain dn err v where f: "found k nid (shared g) = ((dn, err), v)"
          by (metis prod.exhaust)
        note cf = pending_call_found [where found = found and k = k and nid = nid and g = g
            and w = w, OF f]
        have st: "step L m found ev g = call_found found w k nid g"
          using Attempt True Some Inr cand by simp
        show ?thesis
        proof (intro allI impI)
          fix e assume "Some e \<in> pending (step L m found ev g)"
          with cf(1) have "err = Some e \<or> Some e \<in> pending g"
            by (auto simp: st split: option.splits if_splits)
          then show "error_origin L m E (step L m found ev g) e"
          proof
            assume "err = Some e"
            then show ?thesis
              by (auto simp: st cf(2) error_origin_def)
          next
            assume "Some e \<in> pending g"
            with inv have "error_origin L m E g e" by simp
            then show ?thesis
              by (rule error_origin_mono) (auto simp: st cf)
          qed
        qed
      qed
    qed
  qed
next
  case (Send w)
  show ?thesis
  proof (cases "w < length (workers g)")
    case False
    with Send inv show ?thesis by simp
  next
    case True
    show ?thesis
    proof (cases "workers g ! w")
      case (Sending msg)
      show ?thesis
      proof (intro allI impI)
        fix e assume "Some e \<in> pending (step L m found ev g)"
        with Send True Sending pending_send [of w g msg] have "Some e \<in> pending g"
          by auto
        with inv have "error_origin L m E g e" by simp
        then show "error_origin L m E (step L m found ev g) e"
          by (rule error_origin_mono) (use Send True Sending in auto)
      qed
    qed (use Send True inv in simp_all)
  qed
qed

lemma errchan_step_not_Send [simp]:
  "errchan (step L m found (Cancel c) g) = errchan g"
  "errchan (step L m found (Check w) g) = errchan g"
  "errchan (step L m found (Attempt w r) g) = errchan g"
  by (auto simp: call_found_def split: option.splits sum.splits prod.splits)

text \<open>A goroutine that has returned has sent its value.\<close>

lemma exited_step:
  assumes "exited_sent g"
  shows "exited_sent (step L m found e g)"
  using assms
  by (cases e)
     (auto simp: exited_sent_def call_found_def dest!: in_set_update
        split: option.splits sum.splits prod.splits if_splits worker.splits)

lemma at_place_set_worker [simp]:
  "w < length (workers g) \<Longrightarrow> at_place (set_worker w st g) w st' \<longleftrightarrow> st = st'"
  by (simp add: at_place_def)

lemma step_Cancel_place [simp]:
  "at_place (step L m found (Cancel c) g) w st = at_place g w st"
  by (simp add: at_place_def)

lemma step_Cancel_ctx: "ctx_Err (step L m found (Cancel c) g) \<noteq> None"
  by simp

lemma ctx_Err_step_Attempt [simp]:
  "ctx_Err (step L m found (Attempt w r) g) = ctx_Err g"
  by (auto simp: call_found_def split: option.splits sum.splits prod.splits)

lemma step_Attempt_place:
  assumes "w < length (workers g)" and "workers g ! w \<noteq> Exited"
  shows "at_place (step L m found (Attempt w r) g) w LoopHead
       \<or> (\<exists>msg. at_place (step L m found (Attempt w r) g) w (Sending msg))"
proof (cases "at_place g w Checked")
  case True
  with assms show ?thesis
    by (auto simp: call_found_def at_place_def split: option.splits sum.splits prod.splits)
next
  case False
  with assms show ?thesis
    by (cases "workers g ! w") (auto simp: at_place_def)
qed

lemma step_Check_place:
  assumes "at_place g w LoopHead \<or> (\<exists>msg. at_place g w (Sending msg))" and "ctx_Err g \<noteq> None"
  shows "\<exists>msg. at_place (step L m found (Check w) g) w (Sending msg)"
  using assms by (auto simp: at_place_def)

lemma step_Send_place:
  assumes "at_place g w (Sending msg)"
  shows "errchan (step L m found (Send w) g) \<noteq> []"
  using assms by (auto simp: at_place_def)

text \<open>After a cancellation, three steps of a goroutine that has not returned put a value on
  the channel.\<close>

lemma cancelled_worker_sends:
  assumes w: "w < length (workers g)" and ex: "exited_sent g"
  shows "errchan (run L m found [Cancel c, Attempt w r, Check w, Send w] g) \<noteq> []"
proof (cases "errchan g = []")
  case False
  then show ?thesis by simp
next
  case True
  let ?g1 = "step L m found (Cancel c) g"
  let ?g2 = "step L m found (Attempt w r) ?g1"
  let ?g3 = "step L m found (Check w) ?g2"
  from True ex w have "workers g ! w \<noteq> Exited"
    unfolding exited_sent_def by (metis nth_mem)
  then have "workers ?g1 ! w \<noteq> Exited" and w1: "w < length (workers ?g1)"
    using w by simp_all
  then have "at_place ?g2 w LoopHead \<or> (\<exists>msg. at_place ?g2 w (Sending msg))"
    by (intro step_Attempt_place)
  moreover have "ctx_Err ?g2 \<noteq> None"
    by (simp del: step.simps add: step_Cancel_ctx)
  ultimately obtain msg where "at_place ?g3 w (Sending msg)"
    using step_Check_place [of ?g2 w L m found] by blast
  then have "errchan (step L m found (Send w) ?g3) \<noteq> []"
    by (rule step_Send_place)
  moreover have "errchan ?g3 = []"
    using True by (simp del: step.simps)
  ultimately show ?thesis
    using True by (simp del: step.simps)
qed

lemma GenerateKeys_run_unfold:
  assumes "0 \<le> c"
  shows "GenerateKeys_run L ctx m c found v sched =
     (let g = run L m found sched
                \<lparr>ctx_Err = ctx, workers = replicate (nat c) LoopHead, errchan = [],
                 shared = v, found_calls = []\<rparr>
      in case errchan g of [] \<Rightarrow> None | msg # ms \<Rightarrow> Some (Returns msg, g))"
  using assms by (simp add: GenerateKeys_run_def)

lemma GenerateKeys_run_returns:
  assumes "GenerateKeys_run L ctx m c found v sched = Some (Returns msg, g)"
  shows "g = run L m found sched
                \<lparr>ctx_Err = ctx, workers = replicate (nat c) LoopHead, errchan = [],
                 shared = v, found_calls = []\<rparr>"
    and "msg \<in> pending g" and "msg = hd (errchan g)" and "errchan g \<noteq> []" and "0 \<le> c"
  using assms
  by (auto simp: GenerateKeys_run_def Let_def pending_def split: if_splits list.splits)

lemma cancelled_at_start_step:
  assumes "cancelled_at_start reason g"
  shows "cancelled_at_start reason (step L m found e g)"
proof (cases e)
  case (Cancel c)
  with assms show ?thesis
    by (simp add: cancelled_at_start_def)
next
  case (Check w)
  with assms pending_set_worker [of w "Sending (Some (Wrap ErrNodeID reason))" g]
  show ?thesis
    by (auto simp: cancelled_at_start_def dest!: in_set_update)
next
  case (Attempt w r)
  from assms have "\<not> at_place g w Checked"
    unfolding cancelled_at_start_def at_place_def by (metis nth_mem)
  with Attempt assms show ?thesis by simp
next
  case (Send w)
  show ?thesis
  proof (cases "w < length (workers g)")
    case False
    with Send assms show ?thesis by simp
  next
    case True
    show ?thesis
    proof (cases "workers g ! w")
      case (Sending msg)
      with Send True assms pending_send [of w g msg] show ?thesis
        by (auto simp: cancelled_at_start_def dest!: in_set_update)
    qed (use Send True assms in simp_all)
  qed
qed

lemma GenerateKeys_cancelled_at_start:
  assumes "GenerateKeys_run L (Some reason) m c found v sched = Some (Returns r, g)"
  shows "r = Some (Wrap ErrNodeID reason)"
proof -
  let ?init = "\<lparr>ctx_Err = Some reason, workers = replicate (nat c) LoopHead, errchan = [],
              shared = v, found_calls = []\<rparr>"
  note g = GenerateKeys_run_returns(1) [OF assms] and p = GenerateKeys_run_returns(2) [OF assms]
  have "cancelled_at_start reason ?init"
    by (simp add: cancelled_at_start_def pending_def)
  then have "cancelled_at_start reason g"
    unfolding g by (rule run_invariant) (rule cancelled_at_start_step)
  with p show ?thesis
    by (auto simp: cancelled_at_start_def)
qed

text \<open>With no goroutine (\<^verbatim>\<open>concurrency\<close> 0) nothing is ever sent: under no schedule does the
  call return.\<close>

lemma step_no_workers:
  assumes "workers g = []"
  shows "workers (step L m found e g) = [] \<and> errchan (step L m found e g) = errchan g"
  using assms by (cases e) (auto simp: at_place_def)

lemma run_no_workers:
  assumes "workers g = []" and "errchan g = []"
  shows "errchan (run L m found es g) = []"
  using assms
proof (induction es arbitrary: g)
  case Nil
  then show ?case by simp
next
  case (Cons e es)
  from step_no_workers [OF Cons.prems(1), of L m found e] Cons.prems(2)
  have "errchan (run L m found es (step L m found e g)) = []"
    by (intro Cons.IH) simp_all
  with Cons.prems show ?case by simp
qed

lemma GenerateKeys_no_workers: "GenerateKeys L ctx m 0 found v sched = None"
  by (simp add: GenerateKeys_def GenerateKeys_run_def run_no_workers)

lemma sending_step:
  assumes "at_place g w (Sending msg)" and "\<forall>w'. e \<noteq> Send w'"
  shows "at_place (step L m found e g) w (Sending msg) \<and> errchan (step L m found e g) = errchan g"
proof (cases e)
  case (Cancel c)
  with assms show ?thesis by (simp add: at_place_def)
next
  case (Check w')
  have "w' \<noteq> w" if "at_place g w' LoopHead"
    using that assms(1) by (auto simp: at_place_def)
  with Check assms show ?thesis
    by (auto simp: at_place_def split: option.splits)
next
  case (Attempt w' r)
  have "w' \<noteq> w" if "at_place g w' Checked"
    using that assms(1) by (auto simp: at_place_def)
  with Attempt assms show ?thesis
    by (auto simp: at_place_def call_found_def split: option.splits sum.splits prod.splits)
next
  case (Send w')
  with assms show ?thesis by simp
qed

lemma sending_run:
  assumes "at_place g w (Sending msg)" and "errchan g = []" and "no_Send es"
  shows "at_place (run L m found es g) w (Sending msg) \<and> errchan (run L m found es g) = []"
  using assms
proof (induction es arbitrary: g)
  case Nil
  then show ?case by simp
next
  case (Cons e es)
  from Cons.prems(3) have e: "\<forall>w'. e \<noteq> Send w'" and es: "no_Send es"
    by (auto simp: no_Send_def)
  from sending_step [OF Cons.prems(1) e, of L m found] Cons.prems(2)
  have "at_place (step L m found e g) w (Sending msg)" and "errchan (step L m found e g) = []"
    by simp_all
  then have "at_place (run L m found es (step L m found e g)) w (Sending msg)
      \<and> errchan (run L m found es (step L m found e g)) = []"
    using es by (rule Cons.IH)
  with Cons.prems(2) show ?case by simp
qed

text \<open>A goroutine that is about to send a value, while the channel is empty, determines the
  result of the call when it is the first to send.\<close>

lemma first_send_returns:
  assumes g: "g = run L m found sched (start ctx c v)"
    and s: "at_place (step L m found e g) w (Sending msg)"
    and e: "errchan g = []" "errchan (step L m found e g) = []"
    and mid: "no_Send mid"
  shows "GenerateKeys L ctx m c found v (sched @ [e] @ mid @ [Send w]) = Some (Returns msg)"
proof -
  let ?g1 = "step L m found e g"
  let ?g2 = "run L m found mid ?g1"
  from s have "w < length (workers ?g1)"
    by (simp add: at_place_def)
  then have "w < nat c"
    by (simp add: g start_def)
  then have c: "0 \<le> c" by simp
  from sending_run [OF s e(2) mid, of L m found]
  have s2: "at_place ?g2 w (Sending msg)" and e2: "errchan ?g2 = []"
    by simp_all
  have "run L m found (sched @ [e] @ mid @ [Send w]) (start ctx c v)
      = run L m found [Send w] ?g2"
    using e(1) by (simp add: run_append g [symmetric] del: step.simps)
  also have "errchan \<dots> = [msg]"
    using s2 e2 by (simp add: at_place_def)
  finally have "errchan (run L m found (sched @ [e] @ mid @ [Send w]) (start ctx c v)) = [msg]" .
  then show ?thesis
    using c by (simp add: GenerateKeys_def GenerateKeys_run_def start_def Let_def)
qed

lemma step_Attempt_fails:
  assumes "at_place g w Checked" and "GenerateKey_body L m r = Some (Inl e)"
  shows "at_place (step L m found (Attempt w r) g) w (Sending (Some e))"
  using assms by (simp add: at_place_def)

lemma step_Attempt_found_error:
  assumes "at_place g w Checked" and "GenerateKey_body L m r = Some (Inr (k, nid))"
    and "fst (found k nid (shared g)) = (dn, Some e)"
  shows "at_place (step L m found (Attempt w r) g) w (Sending (Some e))"
  using assms by (auto simp: at_place_def call_found_def split: prod.splits)

lemma step_Check_cancelled:
  assumes "at_place g w LoopHead" and "ctx_Err g = Some reason"
  shows "at_place (step L m found (Check w) g) w (Sending (Some (Wrap ErrNodeID reason)))"
  using assms by (simp add: at_place_def)

lemma first_sender_surfaced:
  assumes g: "g = run L m found sched (start ctx c v)" and e: "errchan g = []" and mid: "no_Send mid"
  shows "(at_place g w LoopHead \<and> ctx_Err g = Some reason \<longrightarrow>
            GenerateKeys L ctx m c found v (sched @ [Check w] @ mid @ [Send w])
              = Some (Returns (Some (Wrap ErrNodeID reason))))
       \<and> (at_place g w Checked \<and> GenerateKey_body L m r = Some (Inl err) \<longrightarrow>
            GenerateKeys L ctx m c found v (sched @ [Attempt w r] @ mid @ [Send w])
              = Some (Returns (Some err)))
       \<and> (at_place g w Checked \<and> GenerateKey_body L m r = Some (Inr (k, nid))
              \<and> fst (found k nid (shared g)) = (dn, Some err) \<longrightarrow>
            GenerateKeys L ctx m c found v (sched @ [Attempt w r] @ mid @ [Send w])
              = Some (Returns (Some err)))"
proof (intro conjI impI)
  assume a: "at_place g w LoopHead \<and> ctx_Err g = Some reason"
  then have "at_place (step L m found (Check w) g) w (Sending (Some (Wrap ErrNodeID reason)))"
    by (intro step_Check_cancelled) simp_all
  moreover have "errchan (step L m found (Check w) g) = []"
    using e by (simp del: step.simps)
  ultimately show "GenerateKeys L ctx m c found v (sched @ [Check w] @ mid @ [Send w])
      = Some (Returns (Some (Wrap ErrNodeID reason)))"
    using g e mid by (intro first_send_returns)
next
  assume a: "at_place g w Checked \<and> GenerateKey_body L m r = Some (Inl err)"
  then have "at_place (step L m found (Attempt w r) g) w (Sending (Some err))"
    by (intro step_Attempt_fails) simp_all
  moreover have "errchan (step L m found (Attempt w r) g) = []"
    using e by (simp del: step.simps)
  ultimately show "GenerateKeys L ctx m c found v (sched @ [Attempt w r] @ mid @ [Send w])
      = Some (Returns (Some err))"
    using g e mid by (intro first_send_returns)
next
  assume a: "at_place g w Checked \<and> GenerateKey_body L m r = Some (Inr (k, nid))
              \<and> fst (found k nid (shared g)) = (dn, Some err)"
  then have "at_place (step L m found (Attempt w r) g) w (Sending (Some err))"
    by (intro step_Attempt_found_error [where k = k and nid = nid and dn = dn]) simp_all
  moreover have "errchan (step L m found (Attempt w r) g) = []"
    using e by (simp del: step.simps)
  ultimately show "GenerateKeys L ctx m c found v (sched @ [Attempt w r] @ mid @ [Send w])
      = Some (Returns (Some err))"
    using g e mid by (intro first_send_returns)
qed

text \<open>
  C9, as stated, fails: a goroutine that has passed the check of the context when the
  context is cancelled finishes its pass; when its callback then returns done, the call
  returns nil. Here the context is cancelled before any call of the callback, and the call,
  under the callback of \<^verbatim>\<open>NewCA\<close>, returns nil. And the error of a goroutine is lost when
  another goroutine sends first: in the second run the key generation of goroutine 1 fails,
  goroutine 0 sends nil before goroutine 1 sends its error, and the call returns nil.
\<close>

theorem GenerateKeys_cancelled_in_flight_counterexample:
  "ctx_Err (run example_lib 8 (NewCA_found example_lib example_opts) [Check 0, Cancel canceled]
      \<lparr>ctx_Err = None, workers = [LoopHead], errchan = [], shared = example_vars,
        found_calls = []\<rparr>) = Some canceled
   \<and> found_calls (run example_lib 8 (NewCA_found example_lib example_opts) [Check 0, Cancel canceled]
      \<lparr>ctx_Err = None, workers = [LoopHead], errchan = [], shared = example_vars,
        found_calls = []\<rparr>) = []
   \<and> GenerateKeys example_lib None 8 1 (NewCA_found example_lib example_opts) example_vars
       [Check 0, Cancel canceled, Attempt 0 (Inr (key_of 16)), Send 0] = Some (Returns None)
   \<and> GenerateKeys example_lib None 8 2 (NewCA_found example_lib example_opts) example_vars
       [Check 0, Check 1, Attempt 1 (Inl (Foreign ''entropy source failed'')),
        Attempt 0 (Inr (key_of 16)), Send 0, Send 1] = Some (Returns None)"
  by code_simp

text \<open>
  C9, amended. For every call of \<^verbatim>\<open>GenerateKeys\<close> and every schedule. Cancellation: when the
  context is already cancelled at the call, the call can only return the error of the
  context wrapped by \<^verbatim>\<open>ErrNodeID\<close>; when a goroutine at the head of its loop reads the
  error of a cancelled context and is the first to send, the call returns that error,
  wrapped; once the context is cancelled, the call returns as soon as any one of its
  goroutines has taken three more steps (the rest of its pass, the check of the context,
  the send); and the call returns nil only if a call of the callback has returned done
  without error. Errors: when the key generation of a goroutine fails, or the callback
  returns an error to it, and that goroutine is the first to send, the call returns that
  error; and every error that the call returns is the wrapped error of the context, the
  wrapped error of a failed pass of key generation, or an error returned by the callback.
\<close>

theorem GenerateKeys_cancellation_amended:
  "(\<forall>reason r g. ctx = Some reason
        \<and> GenerateKeys_run L ctx m c found v sched = Some (Returns r, g) \<longrightarrow>
          r = Some (Wrap ErrNodeID reason))
   \<and> (\<forall>g. GenerateKeys_run L ctx m c found v sched = Some (Returns None, g) \<longrightarrow> done_called g)
   \<and> (\<forall>e g. GenerateKeys_run L ctx m c found v sched = Some (Returns (Some e), g) \<longrightarrow>
          error_origin L m (set sched) g e)
   \<and> (\<forall>w r reason. int w < c \<longrightarrow>
          GenerateKeys_run L ctx m c found v (sched @ [Cancel reason, Attempt w r, Check w, Send w])
            \<noteq> None)
   \<and> (\<forall>g mid w r reason err k nid dn.
          g = run L m found sched (start ctx c v) \<and> errchan g = [] \<and> no_Send mid \<longrightarrow>
          (at_place g w LoopHead \<and> ctx_Err g = Some reason \<longrightarrow>
             GenerateKeys L ctx m c found v (sched @ [Check w] @ mid @ [Send w])
               = Some (Returns (Some (Wrap ErrNodeID reason))))
          \<and> (at_place g w Checked \<and> GenerateKey_body L m r = Some (Inl err) \<longrightarrow>
               GenerateKeys L ctx m c found v (sched @ [Attempt w r] @ mid @ [Send w])
                 = Some (Returns (Some err)))
          \<and> (at_place g w Checked \<and> GenerateKey_body L m r = Some (Inr (k, nid))
                 \<and> fst (found k nid (shared g)) = (dn, Some err) \<longrightarrow>
               GenerateKeys L ctx m c found v (sched @ [Attempt w r] @ mid @ [Send w])
                 = Some (Returns (Some err))))"
proof (intro conjI allI impI)
  let ?init = "\<lparr>ctx_Err = ctx, workers = replicate (nat c) LoopHead, errchan = [],
              shared = v, found_calls = []\<rparr>"
  {
    fix reason r g
    assume "ctx = Some reason \<and> GenerateKeys_run L ctx m c found v sched = Some (Returns r, g)"
    then have "GenerateKeys_run L (Some reason) m c found v sched = Some (Returns r, g)"
      by blast
    then show "r = Some (Wrap ErrNodeID reason)"
      by (rule GenerateKeys_cancelled_at_start)
  }
  {
    fix g assume a: "GenerateKeys_run L ctx m c found v sched = Some (Returns None, g)"
    note g = GenerateKeys_run_returns(1) [OF a] and p = GenerateKeys_run_returns(2) [OF a]
    have "None \<in> pending ?init \<longrightarrow> done_called ?init"
      by (simp add: pending_def)
    then have "None \<in> pending g \<longrightarrow> done_called g"
      unfolding g by (rule nil_pending_run)
    with p show "done_called g" by simp
  }
  {
    fix e g assume a: "GenerateKeys_run L ctx m c found v sched = Some (Returns (Some e), g)"
    note g = GenerateKeys_run_returns(1) [OF a] and p = GenerateKeys_run_returns(2) [OF a]
    have "\<forall>e. Some e \<in> pending ?init \<longrightarrow> error_origin L m (set sched) ?init e"
      by (simp add: pending_def)
    then have "\<forall>e. Some e \<in> pending g \<longrightarrow> error_origin L m (set sched) g e"
      unfolding g
      by (rule run_invariant [where P = "\<lambda>g. \<forall>e. Some e \<in> pending g \<longrightarrow> error_origin L m (set sched) g e"])
         (rule error_pending_step)
    with p show "error_origin L m (set sched) g e" by simp
  }
  {
    fix w r reason assume w: "int w < c"
    let ?fin = "run L m found sched ?init"
    have "exited_sent ?init"
      by (simp add: exited_sent_def)
    then have "exited_sent ?fin"
      by (rule run_invariant) (rule exited_step)
    moreover have "w < length (workers ?fin)"
      using w by simp
    ultimately have "errchan (run L m found [Cancel reason, Attempt w r, Check w, Send w] ?fin) \<noteq> []"
      by (rule cancelled_worker_sends [rotated])
    then show "GenerateKeys_run L ctx m c found v
        (sched @ [Cancel reason, Attempt w r, Check w, Send w]) \<noteq> None"
      using w by (simp add: GenerateKeys_run_unfold run_append Let_def del: run.simps split: list.splits)
  }
  {
    fix g mid w reason
    assume a: "g = run L m found sched (start ctx c v) \<and> errchan g = [] \<and> no_Send mid"
      and b: "at_place g w LoopHead \<and> ctx_Err g = Some reason"
    from a have 1: "g = run L m found sched (start ctx c v)" and 2: "errchan g = []"
      and 3: "no_Send mid"
      by blast+
    from first_sender_surfaced [OF 1 2 3] b
    show "GenerateKeys L ctx m c found v (sched @ [Check w] @ mid @ [Send w])
        = Some (Returns (Some (Wrap ErrNodeID reason)))"
      by blast
  }
  {
    fix g mid w r err
    assume a: "g = run L m found sched (start ctx c v) \<and> errchan g = [] \<and> no_Send mid"
      and b: "at_place g w Checked \<and> GenerateKey_body L m r = Some (Inl err)"
    from a have 1: "g = run L m found sched (start ctx c v)" and 2: "errchan g = []"
      and 3: "no_Send mid"
      by blast+
    from first_sender_surfaced [OF 1 2 3] b
    show "GenerateKeys L ctx m c found v (sched @ [Attempt w r] @ mid @ [Send w])
        = Some (Returns (Some err))"
      by blast
  }
  {
    fix g mid w r err k nid dn
    assume a: "g = run L m found sched (start ctx c v) \<and> errchan g = [] \<and> no_Send mid"
      and b: "at_place g w Checked \<and> GenerateKey_body L m r = Some (Inr (k, nid))
                 \<and> fst (found k nid (shared g)) = (dn, Some err)"
    from a have 1: "g = run L m found sched (start ctx c v)" and 2: "errchan g = []"
      and 3: "no_Send mid"
      by blast+
    from first_sender_surfaced [OF 1 2 3] b
    show "GenerateKeys L ctx m c found v (sched @ [Attempt w r] @ mid @ [Send w])
        = Some (Returns (Some err))"
      by blast
  }
qed

theorem GenerateKeys_cancellation_amended_witness:
  "done_called
     \<lparr>ctx_Err = Some canceled, workers = [Exited], errchan = [None],
      shared = \<lparr>highscore = 20, i_var = 1, selectedKey = Some (key_of 16), selectedID = 20\<rparr>,
      found_calls = [(key_of 16, 20, True, None)]\<rparr>
   \<and> error_origin example_lib 8
       (set [Check 0, Attempt 0 (Inr (key_of 5)), Cancel canceled, Check 1, Send 1])
       \<lparr>ctx_Err = Some canceled, workers = [LoopHead, Exited], errchan = [Some (Wrap ErrNodeID canceled)],
        shared = \<lparr>highscore = 9, i_var = 1, selectedKey = None, selectedID = 0\<rparr>,
        found_calls = [(key_of 5, 9, False, None)]\<rparr>
       (Wrap ErrNodeID canceled)
   \<and> GenerateKeys_run example_lib None 8 2 (NewCA_found example_lib example_opts) example_vars
       ([Check 0] @ [Cancel canceled, Attempt 1 (Inr (key_of 5)), Check 1, Send 1]) \<noteq> None
   \<and> GenerateKeys example_lib (Some canceled) 8 2 (NewCA_found example_lib example_opts) example_vars
       [Check 1, Send 1] = Some (Returns (Some (Wrap ErrNodeID canceled)))
   \<and> GenerateKeys example_lib None 8 2 (NewCA_found example_lib example_opts) example_vars
       ([Check 0] @ [Attempt 0 (Inl (Foreign ''entropy source failed''))] @ [Check 1] @ [Send 0])
       = Some (Returns (Some (Wrap ErrNodeID (Foreign ''entropy source failed''))))"
proof -
  let ?g = "\<lparr>ctx_Err = None, workers = [Checked, LoopHead], errchan = [],
      shared = example_vars, found_calls = []\<rparr>"
  have f1: "?g = run example_lib 8 (NewCA_found example_lib example_opts) [Check 0]
      (start None 2 example_vars)"
    by code_simp
  have f2: "errchan ?g = [] \<and> no_Send [Check 1]"
    by (simp add: no_Send_def)
  have f3: "at_place ?g 0 Checked
      \<and> GenerateKey_body example_lib 8 (Inl (Foreign ''entropy source failed''))
          = Some (Inl (Wrap ErrNodeID (Foreign ''entropy source failed'')))"
    by (simp add: at_place_def GenerateKey_body_def)
  from GenerateKeys_cancellation_amended [where L = example_lib and ctx = None and m = 8 and c = 2
      and found = "NewCA_found example_lib example_opts" and v = example_vars
      and sched = "[Check 0]"] f1 f2 f3
  have 5: "GenerateKeys example_lib None 8 2 (NewCA_found example_lib example_opts) example_vars
       ([Check 0] @ [Attempt 0 (Inl (Foreign ''entropy source failed''))] @ [Check 1] @ [Send 0])
       = Some (Returns (Some (Wrap ErrNodeID (Foreign ''entropy source failed''))))"
    by blast
  have d: "GenerateKeys_run example_lib (Some canceled) 8 2 (NewCA_found example_lib example_opts)
       example_vars [Check 1, Send 1] =
     Some (Returns (Some (Wrap ErrNodeID canceled)),
       \<lparr>ctx_Err = Some canceled, workers = [LoopHead, Exited],
        errchan = [Some (Wrap ErrNodeID canceled)], shared = example_vars, found_calls = []\<rparr>)"
    by code_simp
  from GenerateKeys_cancellation_amended [where L = example_lib and ctx = "Some canceled"
      and m = 8 and c = 2 and found = "NewCA_found example_lib example_opts" and v = example_vars
      and sched = "[Check 1, Send 1]"] d
  have 4: "GenerateKeys example_lib (Some canceled) 8 2 (NewCA_found example_lib example_opts)
       example_vars [Check 1, Send 1] = Some (Returns (Some (Wrap ErrNodeID canceled)))"
    unfolding GenerateKeys_def d by simp
  have a: "GenerateKeys_run example_lib None 8 1 (NewCA_found example_lib example_opts) example_vars
       [Check 0, Cancel canceled, Attempt 0 (Inr (key_of 16)), Send 0] =
     Some (Returns None,
       \<lparr>ctx_Err = Some canceled, workers = [Exited], errchan = [None],
        shared = \<lparr>highscore = 20, i_var = 1, selectedKey = Some (key_of 16), selectedID = 20\<rparr>,
        found_calls = [(key_of 16, 20, True, None)]\<rparr>)"
    by code_simp
  have b: "GenerateKeys_run example_lib None 8 2 (NewCA_found example_lib example_opts) example_vars
       [Check 0, Attempt 0 (Inr (key_of 5)), Cancel canceled, Check 1, Send 1] =
     Some (Returns (Some (Wrap ErrNodeID canceled)),
       \<lparr>ctx_Err = Some canceled, workers = [LoopHead, Exited],
        errchan = [Some (Wrap ErrNodeID canceled)],
        shared = \<lparr>highscore = 9, i_var = 1, selectedKey = None, selectedID = 0\<rparr>,
        found_calls = [(key_of 5, 9, False, None)]\<rparr>)"
    by code_simp
  have c: "int 1 < 2" by simp
  from GenerateKeys_cancellation_amended [where L = example_lib and ctx = None and m = 8 and c = 1
      and found = "NewCA_found example_lib example_opts" and v = example_vars
      and sched = "[Check 0, Cancel canceled, Attempt 0 (Inr (key_of 16)), Send 0]"] a
  have 1: "done_called
     \<lparr>ctx_Err = Some canceled, workers = [Exited], errchan = [None],
      shared = \<lparr>highscore = 20, i_var = 1, selectedKey = Some (key_of 16), selectedID = 20\<rparr>,
      found_calls = [(key_of 16, 20, True, None)]\<rparr>"
    by blast
  from GenerateKeys_cancellation_amended [where L = example_lib and ctx = None and m = 8 and c = 2
      and found = "NewCA_found example_lib example_opts" and v = example_vars
      and sched = "[Check 0, Attempt 0 (Inr (key_of 5)), Cancel canceled, Check 1, Send 1]"] b
  have 2: "error_origin example_lib 8
       (set [Check 0, Attempt 0 (Inr (key_of 5)), Cancel canceled, Check 1, Send 1])
       \<lparr>ctx_Err = Some canceled, workers = [LoopHead, Exited], errchan = [Some (Wrap ErrNodeID canceled)],
        shared = \<lparr>highscore = 9, i_var = 1, selectedKey = None, selectedID = 0\<rparr>,
        found_calls = [(key_of 5, 9, False, None)]\<rparr>
       (Wrap ErrNodeID canceled)"
    by blast
  from GenerateKeys_cancellation_amended [where L = example_lib and ctx = None and m = 8 and c = 2
      and found = "NewCA_found example_lib example_opts" and v = example_vars
      and sched = "[Check 0]"] c
  have 3: "GenerateKeys_run example_lib None 8 2 (NewCA_found example_lib example_opts) example_vars
       ([Check 0] @ [Cancel canceled, Attempt 1 (Inr (key_of 5)), Check 1, Send 1]) \<noteq> None"
    by blast
  from 1 2 3 4 5 show ?thesis by blast
qed

lemma GenerateKey_body_candidate:
  assumes "GenerateKey_body L m r = Some (Inr (k, nid))"
  shows "\<exists>d. Difficulty L nid = Inr d \<and> m \<le> d"
  using assms by (auto simp: GenerateKey_body_def split: sum.splits if_splits)

lemma NewCA_found_result:
  assumes "Difficulty L nid = Inr d"
  shows "fst (NewCA_found L opts k nid v) = (opt_Difficulty opts \<le> d, None)"
    and "selectedKey (snd (NewCA_found L opts k nid v)) =
           (if opt_Difficulty opts \<le> d \<and> selectedKey v = None then Some k else selectedKey v)"
    and "selectedID (snd (NewCA_found L opts k nid v)) =
           (if opt_Difficulty opts \<le> d \<and> selectedKey v = None then nid else selectedID v)"
  using assms by (simp_all add: NewCA_found_def Let_def)

lemma find_snoc:
  "find P (xs @ [x]) = (case find P xs of None \<Rightarrow> if P x then Some x else None | Some y \<Rightarrow> Some y)"
  by (induction xs) simp_all

lemma candidates_simps [simp]:
  "candidates (set_worker w st g) = candidates g"
  "candidates (g\<lparr>ctx_Err := c\<rparr>) = candidates g"
  "candidates (g\<lparr>errchan := ms\<rparr>) = candidates g"
  by (simp_all add: candidates_def)

lemma ca_inv_unchanged:
  assumes "ca_inv L opts g" and "found_calls g' = found_calls g" and "shared g' = shared g"
  shows "ca_inv L opts g'"
  using assms by (auto simp: ca_inv_def candidates_def split: option.splits)

lemma ca_inv_call_found:
  assumes inv: "ca_inv L opts g" and d: "Difficulty L nid = Inr d" "minimumLoggableDifficulty \<le> d"
  shows "ca_inv L opts (call_found (NewCA_found L opts) w k nid g)"
proof -
  obtain dn err v where f: "NewCA_found L opts k nid (shared g) = ((dn, err), v)"
    by (metis prod.exhaust)
  note cf = pending_call_found [where found = "NewCA_found L opts" and k = k and nid = nid
      and g = g and w = w, OF f]
  from NewCA_found_result [OF d(1), of opts k "shared g"] f
  have dn: "dn = (opt_Difficulty opts \<le> d)" and err: "err = None"
    and key: "selectedKey v = (if opt_Difficulty opts \<le> d \<and> selectedKey (shared g) = None
                              then Some k else selectedKey (shared g))"
    and sid: "selectedID v = (if opt_Difficulty opts \<le> d \<and> selectedKey (shared g) = None
                              then nid else selectedID (shared g))"
    by simp_all
  have mf: "meets_floor L opts (k, nid) \<longleftrightarrow> opt_Difficulty opts \<le> d"
    using d by (simp add: meets_floor_def)
  have cands: "candidates (call_found (NewCA_found L opts) w k nid g) = candidates g @ [(k, nid)]"
    by (simp add: candidates_def cf(2))
  show ?thesis
    unfolding ca_inv_def
  proof (intro conjI)
    show "\<forall>(k, nid, dn, err) \<in> set (found_calls (call_found (NewCA_found L opts) w k nid g)).
          (\<exists>d. Difficulty L nid = Inr d \<and> minimumLoggableDifficulty \<le> d)
          \<and> (dn \<longrightarrow> meets_floor L opts (k, nid))"
      using inv d mf dn by (auto simp: cf(2) ca_inv_def)
  next
    show "case find (meets_floor L opts) (candidates (call_found (NewCA_found L opts) w k nid g)) of
            None \<Rightarrow> selectedKey (shared (call_found (NewCA_found L opts) w k nid g)) = None
          | Some (k', nid') \<Rightarrow>
              selectedKey (shared (call_found (NewCA_found L opts) w k nid g)) = Some k'
              \<and> selectedID (shared (call_found (NewCA_found L opts) w k nid g)) = nid'"
      using inv mf
      by (auto simp: cands find_snoc cf(5) key sid ca_inv_def split: option.splits)
  qed
qed

lemma ca_inv_step:
  assumes "ca_inv L opts g"
  shows "ca_inv L opts (step L minimumLoggableDifficulty (NewCA_found L opts) e g)"
proof (cases e)
  case (Cancel reason)
  with assms show ?thesis
    by (auto intro: ca_inv_unchanged)
next
  case (Check w)
  with assms show ?thesis
    by (auto intro: ca_inv_unchanged split: option.splits)
next
  case (Attempt w r)
  show ?thesis
  proof (cases "at_place g w Checked")
    case False
    with Attempt assms show ?thesis by simp
  next
    case True
    show ?thesis
    proof (cases "GenerateKey_body L minimumLoggableDifficulty r")
      case None
      with Attempt True assms show ?thesis
        by (auto intro: ca_inv_unchanged)
    next
      case (Some res)
      show ?thesis
      proof (cases res)
        case (Inl err)
        with Attempt True Some assms show ?thesis
          by (auto intro: ca_inv_unchanged)
      next
        case (Inr cand)
        obtain k nid where cand: "cand = (k, nid)" by (cases cand)
        from GenerateKey_body_candidate [of L minimumLoggableDifficulty r k nid] Some Inr cand
        obtain d where "Difficulty L nid = Inr d" "minimumLoggableDifficulty \<le> d"
          by auto
        with assms have "ca_inv L opts (call_found (NewCA_found L opts) w k nid g)"
          by (rule ca_inv_call_found)
        with Attempt True Some Inr cand show ?thesis by simp
      qed
    qed
  qed
next
  case (Send w)
  with assms show ?thesis
    by (auto intro: ca_inv_unchanged split: worker.splits)
qed

lemma find_Some_set: "find P xs = Some x \<Longrightarrow> x \<in> set xs \<and> P x"
  by (induction xs) (auto split: if_splits)

lemma find_None_iff': "find P xs = None \<longleftrightarrow> (\<forall>x \<in> set xs. \<not> P x)"
  by (induction xs) auto

lemma NewCA_found_opts [simp]:
  "NewCA_found L (opts\<lparr>Concurrency := c\<rparr>) = NewCA_found L opts"
  "meets_floor L (opts\<lparr>Concurrency := c\<rparr>) = meets_floor L opts"
  by (auto simp: NewCA_found_def meets_floor_def fun_eq_iff Let_def split: sum.splits)

text \<open>
  C4. Whenever \<^verbatim>\<open>NewCA\<close> returns a certificate authority, under any schedule of its
  goroutines, the difficulty of the authority's node ID is at least the configured
  \<^verbatim>\<open>Difficulty\<close> and at least 8, and its key and ID are those of the first candidate, in the
  order of the calls of the callback, whose difficulty meets the configured floor.
\<close>

theorem NewCA_first_candidate:
  assumes "NewCA_run L C ctx opts sched = Some (Returns (Inr ca), g)"
  shows "\<exists>k d. ca_Key ca = Some k \<and> Difficulty L (ca_ID ca) = Inr d
           \<and> opt_Difficulty opts \<le> d \<and> 8 \<le> d
           \<and> find (meets_floor L opts) (candidates g) = Some (k, ca_ID ca)"
proof -
  define c where "c = sint (Concurrency (if Concurrency opts < 1 then opts\<lparr>Concurrency := 1\<rparr> else opts))"
  let ?init = "\<lparr>ctx_Err = ctx, workers = replicate (nat c) LoopHead, errchan = [],
      shared = \<lparr>highscore = 0, i_var = 0, selectedKey = None, selectedID = 0\<rparr>, found_calls = []\<rparr>"
  from assms have gk: "GenerateKeys_run L ctx minimumLoggableDifficulty c (NewCA_found L opts)
      \<lparr>highscore = 0, i_var = 0, selectedKey = None, selectedID = 0\<rparr> sched = Some (Returns None, g)"
    and ca: "ca_ID ca = selectedID (shared g)" "ca_Key ca = selectedKey (shared g)"
    by (auto simp: NewCA_run_def Let_def c_def
        split: option.splits result.splits sum.splits prod.splits if_splits)
  note g = GenerateKeys_run_returns(1) [OF gk] and p = GenerateKeys_run_returns(2) [OF gk]
  have "None \<in> pending ?init \<longrightarrow> done_called ?init"
    by (simp add: pending_def)
  then have "None \<in> pending g \<longrightarrow> done_called g"
    unfolding g by (rule nil_pending_run)
  with p have dc: "done_called g" by simp
  have "ca_inv L opts ?init"
    by (simp add: ca_inv_def candidates_def)
  then have inv: "ca_inv L opts g"
    unfolding g by (rule run_invariant) (rule ca_inv_step)
  from dc obtain k' nid' err' where "(k', nid', True, err') \<in> set (found_calls g)"
    by (auto simp: done_called_def)
  with inv have "meets_floor L opts (k', nid')" and "(k', nid') \<in> set (candidates g)"
    by (force simp: ca_inv_def candidates_def)+
  then have "find (meets_floor L opts) (candidates g) \<noteq> None"
    by (auto simp: find_None_iff')
  then obtain k nid where f: "find (meets_floor L opts) (candidates g) = Some (k, nid)"
    by auto
  with inv have sel: "selectedKey (shared g) = Some k" "selectedID (shared g) = nid"
    by (auto simp: ca_inv_def)
  from find_Some_set [OF f] have mem: "(k, nid) \<in> set (candidates g)" and mf: "meets_floor L opts (k, nid)"
    by simp_all
  from mem inv obtain d where d: "Difficulty L nid = Inr d" "minimumLoggableDifficulty \<le> d"
    by (force simp: ca_inv_def candidates_def)
  with mf have "opt_Difficulty opts \<le> d" "8 \<le> d"
    by (simp_all add: meets_floor_def minimumLoggableDifficulty_def)
  with d f sel ca show ?thesis by simp
qed

theorem NewCA_first_candidate_witness:
  "NewCA example_lib example_cert_lib None example_opts
     [Check 0, Check 1, Attempt 0 (Inr (key_of 5)), Attempt 1 (Inr (key_of 16)),
      Check 0, Attempt 0 (Inr (key_of 26)), Send 0] =
     Some (Returns (Inr \<lparr>ca_RestChain = [], ca_Cert = example_cert [48], ca_ID = 20,
                         ca_Key = Some (key_of 16)\<rparr>))
   \<and> Difficulty example_lib 20 = Inr 20
   \<and> find (meets_floor example_lib example_opts) [(key_of 5, 9), (key_of 16, 20), (key_of 26, 30)] =
       Some (key_of 16, 20)"
proof -
  let ?g = "\<lparr>ctx_Err = None, workers = [Exited, Sending None], errchan = [None],
      shared = \<lparr>highscore = 30, i_var = 3, selectedKey = Some (key_of 16), selectedID = 20\<rparr>,
      found_calls = [(key_of 5, 9, False, None), (key_of 16, 20, True, None),
        (key_of 26, 30, True, None)]\<rparr>"
  have r: "NewCA_run example_lib example_cert_lib None example_opts
     [Check 0, Check 1, Attempt 0 (Inr (key_of 5)), Attempt 1 (Inr (key_of 16)),
      Check 0, Attempt 0 (Inr (key_of 26)), Send 0] =
     Some (Returns (Inr \<lparr>ca_RestChain = [], ca_Cert = example_cert [48], ca_ID = 20,
                         ca_Key = Some (key_of 16)\<rparr>), ?g)"
    by code_simp
  have c: "candidates ?g = [(key_of 5, 9), (key_of 16, 20), (key_of 26, 30)]"
    by (simp add: candidates_def)
  from NewCA_first_candidate [OF r]
  have "find (meets_floor example_lib example_opts) (candidates ?g) = Some (key_of 16, 20)"
    by auto
  then have "find (meets_floor example_lib example_opts)
      [(key_of 5, 9), (key_of 16, 20), (key_of 26, 30)] = Some (key_of 16, 20)"
    unfolding c .
  moreover have "Difficulty example_lib 20 = Inr 20"
    by (simp add: example_lib_def)
  moreover have "NewCA example_lib example_cert_lib None example_opts
     [Check 0, Check 1, Attempt 0 (Inr (key_of 5)), Attempt 1 (Inr (key_of 16)),
      Check 0, Attempt 0 (Inr (key_of 26)), Send 0] =
     Some (Returns (Inr \<lparr>ca_RestChain = [], ca_Cert = example_cert [48], ca_ID = 20,
                         ca_Key = Some (key_of 16)\<rparr>))"
    unfolding NewCA_def r by simp
  ultimately show ?thesis
    by blast
qed

end
